theory Spec2Isabelle
  imports Main "HOL-Library.Word"
begin

section \<open>Strings of the host language\<close>

text \<open>
  A string of the source is a sequence of 16-bit code units. The model keeps that
  alphabet: \<open>trim\<close>, \<open>btoa\<close> and \<open>JSON.parse\<close> all distinguish code units above 255
  from the Latin-1 range. A source literal such as \<^verbatim>\<open>'infer'\<close> is written \<open>js ''infer''\<close>.
\<close>

type_synonym jsstring = "16 word list"

abbreviation js :: "string \<Rightarrow> jsstring" where
  "js s \<equiv> map of_char s"

text \<open>A string is truthy in a condition exactly when it is not empty.\<close>

definition truthy_str :: "jsstring \<Rightarrow> bool" where
  "truthy_str s = (s \<noteq> [])"

text \<open>An optional property is truthy when it is defined and a truthy string.\<close>

definition truthy_opt :: "jsstring option \<Rightarrow> bool" where
  "truthy_opt v = (case v of None \<Rightarrow> False | Some s \<Rightarrow> truthy_str s)"

section \<open>Requests and their argument vectors\<close>

text \<open>
  \<^verbatim>\<open>options?: { showSteps?: boolean; maxDepth?: number }\<close> of both request shapes.
\<close>

record req_options =
  showSteps :: "bool option"
  maxDepth :: "int option"

text \<open>\<^verbatim>\<open>interface InferenceRequest\<close>: \<open>variant\<close> is an optional property.\<close>

record InferenceRequest =
  algorithm :: jsstring
  variant :: "jsstring option"
  expression :: jsstring
  options :: "req_options option"

text \<open>
  \<^verbatim>\<open>interface SubtypingRequest\<close>: here \<open>variant\<close> is a required string, so a request
  without a variant carries the empty string. The field names of the source are
  \<open>algorithm\<close>, \<open>variant\<close>, \<open>leftType\<close>, \<open>rightType\<close>, \<open>options\<close>; the first two and the
  last are suffixed because a record field is a constant of the theory.
\<close>

record SubtypingRequest =
  algorithm_sub :: jsstring
  variant_sub :: jsstring
  leftType :: jsstring
  rightType :: jsstring
  options_sub :: "req_options option"

text \<open>
  The argument vector built in \<^verbatim>\<open>runInference\<close> (\<^verbatim>\<open>request.variant ? [...] : [...]\<close>).
\<close>

definition inferenceArgs :: "InferenceRequest \<Rightarrow> jsstring list" where
  "inferenceArgs request =
     (if truthy_opt (variant request)
      then [js ''infer'', js ''--typing'', algorithm request,
            js ''--variant'', the (variant request), expression request]
      else [js ''infer'', js ''--typing'', algorithm request, expression request])"

text \<open>The argument vector built in \<^verbatim>\<open>runSubtyping\<close>.\<close>

definition subtypingArgs :: "SubtypingRequest \<Rightarrow> jsstring list" where
  "subtypingArgs request =
     (if truthy_str (variant_sub request)
      then [js ''infer'', js ''--subtyping'', algorithm_sub request,
            js ''--variant'', variant_sub request, leftType request, rightType request]
      else [js ''infer'', js ''--subtyping'', algorithm_sub request,
            leftType request, rightType request])"

text \<open>The argument vector built in \<^verbatim>\<open>getMetadata\<close>.\<close>

definition metadataArgs :: "jsstring list" where
  "metadataArgs = [js ''infer'', js ''--meta'']"

section \<open>The source descriptor and the engine state\<close>

datatype auth_type = AuthNone | AuthBearer | AuthBasic | AuthHeader | AuthPresigned

text \<open>
  \<^verbatim>\<open>interface WasmSource\<close>. An optional property is an \<open>option\<close>; \<open>id\<close> of the source is
  \<open>id_src\<close> here, since \<open>id\<close> is the identity function of HOL.
\<close>

record WasmSource =
  id_src :: jsstring
  name :: jsstring
  url :: jsstring
  authType :: "auth_type option"
  authToken :: "jsstring option"
  authHeader :: "jsstring option"
  authUsername :: "jsstring option"
  authPassword :: "jsstring option"
  isLocal :: "bool option"
  createdAt :: int
  lastUpdated :: "jsstring option"

text \<open>
  A compiled module and an instance are opaque objects of the host; the model keeps
  their identity only.
\<close>

datatype wasm_module = Module nat
datatype wasm_instance = Instance nat

text \<open>
  The calls that change the set of active instances, in the order they were made.
  This history is not a field of the class: it is kept beside the fields so that
  a statement can speak of how often a handle was removed.
\<close>

datatype pool_event = Added wasm_instance | Deleted wasm_instance | Cleared

text \<open>The private fields of \<^verbatim>\<open>class WasmTypeInference\<close>.\<close>

record engine =
  wasmModule :: "wasm_module option"
  wasmSource :: WasmSource
  isInitialized :: bool
  outputBuffer :: jsstring
  activeInstances :: "wasm_instance set"
  maxConcurrentInstances :: nat
  poolHistory :: "pool_event list"

definition clearActiveInstances :: "engine \<Rightarrow> engine" where
  "clearActiveInstances s =
     s\<lparr>activeInstances := {}, poolHistory := poolHistory s @ [Cleared]\<rparr>"

text \<open>
  \<^verbatim>\<open>updateWasmSource\<close>: the condition is the disjunction of six strict inequalities, and
  the new descriptor is copied (\<^verbatim>\<open>{ ...newSource }\<close>) only when it holds.
\<close>

definition updateWasmSource :: "WasmSource \<Rightarrow> engine \<Rightarrow> engine" where
  "updateWasmSource newSource s =
     (if url (wasmSource s) \<noteq> url newSource \<or>
         authType (wasmSource s) \<noteq> authType newSource \<or>
         authToken (wasmSource s) \<noteq> authToken newSource \<or>
         authHeader (wasmSource s) \<noteq> authHeader newSource \<or>
         authUsername (wasmSource s) \<noteq> authUsername newSource \<or>
         authPassword (wasmSource s) \<noteq> authPassword newSource
      then (clearActiveInstances (s\<lparr>wasmSource := newSource, wasmModule := None\<rparr>))
             \<lparr>isInitialized := False\<rparr>
      else s)"

text \<open>
  The specification's notion of two descriptors being the same configuration:
  equal url and equal auth fields.
\<close>

definition same_configuration :: "WasmSource \<Rightarrow> WasmSource \<Rightarrow> bool" where
  "same_configuration a b =
     (url a = url b \<and> authType a = authType b \<and> authToken a = authToken b \<and>
      authHeader a = authHeader b \<and> authUsername a = authUsername b \<and>
      authPassword a = authPassword b)"

section \<open>Whitespace and trimming\<close>

text \<open>
  \<^verbatim>\<open>String.prototype.trim\<close> removes white space and line terminators from both ends
  of the string: TAB, LF, VT, FF, CR, SPACE, NBSP, the space separators U+1680,
  U+2000 to U+200A, U+202F, U+205F, U+3000, the separators U+2028 and U+2029, and
  U+FEFF.
\<close>

definition is_js_space :: "16 word \<Rightarrow> bool" where
  "is_js_space c =
     ((0x09 \<le> c \<and> c \<le> 0x0D) \<or> c = 0x20 \<or> c = 0xA0 \<or> c = 0x1680 \<or>
      (0x2000 \<le> c \<and> c \<le> 0x200A) \<or> c = 0x2028 \<or> c = 0x2029 \<or> c = 0x202F \<or>
      c = 0x205F \<or> c = 0x3000 \<or> c = 0xFEFF)"

definition trim :: "jsstring \<Rightarrow> jsstring" where
  "trim s = rev (dropWhile is_js_space (rev (dropWhile is_js_space s)))"

text \<open>Removing white space from the end only, as the specification words it.\<close>

definition trim_end :: "jsstring \<Rightarrow> jsstring" where
  "trim_end s = rev (dropWhile is_js_space (rev s))"

section \<open>Structured values and \<^verbatim>\<open>JSON.parse\<close>\<close>

text \<open>
  The values \<^verbatim>\<open>JSON.parse\<close> returns. A number is kept as the exact decimal its literal
  denotes, \<open>JNumber m e\<close> standing for \<open>m * 10 ^ e\<close>; the rounding to a double is not
  modelled, except where it decides whether the number is zero. An object is the list
  of its properties, each key once.
\<close>

datatype json =
  JNull | JBool bool | JNumber int int | JString jsstring
  | JArray "json list" | JObject "(jsstring \<times> json) list"

text \<open>
  The parser is a recursive descent along the JSON grammar. A step returns the value
  with the rest of the input, or fails. The functions for nested values count their
  calls down from a bound fixed by the length of the input; a lemma below shows that
  the bound is never reached.
\<close>

datatype presult = Parsed json jsstring | SyntaxError | OutOfFuel

text \<open>The white space of JSON: space, tab, line feed, carriage return.\<close>

definition is_json_ws :: "16 word \<Rightarrow> bool" where
  "is_json_ws c = (c = 0x20 \<or> c = 0x09 \<or> c = 0x0A \<or> c = 0x0D)"

definition skip_ws :: "jsstring \<Rightarrow> jsstring" where
  "skip_ws s = dropWhile is_json_ws s"

definition is_digit :: "16 word \<Rightarrow> bool" where
  "is_digit c = (0x30 \<le> c \<and> c \<le> 0x39)"

text \<open>The four hexadecimal digits of a Unicode escape give one code unit.\<close>

definition hex_val :: "16 word \<Rightarrow> nat option" where
  "hex_val c =
     (if 0x30 \<le> c \<and> c \<le> 0x39 then Some (unat c - 0x30)
      else if 0x41 \<le> c \<and> c \<le> 0x46 then Some (unat c - 0x41 + 10)
      else if 0x61 \<le> c \<and> c \<le> 0x66 then Some (unat c - 0x61 + 10)
      else None)"

definition hex4 :: "16 word \<Rightarrow> 16 word \<Rightarrow> 16 word \<Rightarrow> 16 word \<Rightarrow> 16 word option" where
  "hex4 a b c d =
     (case (hex_val a, hex_val b, hex_val c, hex_val d) of
        (Some w, Some x, Some y, Some z) \<Rightarrow> Some (of_nat (((w * 16 + x) * 16 + y) * 16 + z))
      | _ \<Rightarrow> None)"

text \<open>
  The escapes of one character: quotation mark, reverse solidus, solidus, and
  \<open>b\<close>, \<open>f\<close>, \<open>n\<close>, \<open>r\<close>, \<open>t\<close>.
\<close>

definition simple_escape :: "16 word \<Rightarrow> 16 word option" where
  "simple_escape e =
     (if e = 0x22 then Some 0x22 else if e = 0x5C then Some 0x5C
      else if e = 0x2F then Some 0x2F else if e = 0x62 then Some 0x08
      else if e = 0x66 then Some 0x0C else if e = 0x6E then Some 0x0A
      else if e = 0x72 then Some 0x0D else if e = 0x74 then Some 0x09
      else None)"

text \<open>
  A string after its opening quotation mark, up to the closing one. A code unit
  below \<open>0x20\<close> is not allowed unescaped.
\<close>

fun parse_string_body :: "jsstring \<Rightarrow> jsstring \<Rightarrow> (jsstring \<times> jsstring) option" where
  "parse_string_body [] acc = None"
| "parse_string_body (c # cs) acc =
     (if c = 0x22 then Some (acc, cs)
      else if c = 0x5C then
        (case cs of
           [] \<Rightarrow> None
         | e # es \<Rightarrow>
             if e = 0x75 then
               (case es of
                  h1 # h2 # h3 # h4 # rest \<Rightarrow>
                    (case hex4 h1 h2 h3 h4 of
                       Some u \<Rightarrow> parse_string_body rest (acc @ [u])
                     | None \<Rightarrow> None)
                | _ \<Rightarrow> None)
             else
               (case simple_escape e of
                  Some x \<Rightarrow> parse_string_body es (acc @ [x])
                | None \<Rightarrow> None))
      else if c < 0x20 then None
      else parse_string_body cs (acc @ [c]))"

text \<open>
  Numbers: an optional minus sign, an integer part that is \<open>0\<close> or starts with a
  digit from 1 to 9, an optional fraction of at least one digit, an optional
  exponent of at least one digit with an optional sign.
\<close>

definition digits_val :: "jsstring \<Rightarrow> nat" where
  "digits_val ds = foldl (\<lambda>a d. 10 * a + (unat d - 0x30)) 0 ds"

definition parse_int_part :: "jsstring \<Rightarrow> (jsstring \<times> jsstring) option" where
  "parse_int_part s =
     (case s of
        [] \<Rightarrow> None
      | c # cs \<Rightarrow>
          if c = 0x30 then Some ([c], cs)
          else if is_digit c then Some (takeWhile is_digit s, dropWhile is_digit s)
          else None)"

definition parse_frac :: "jsstring \<Rightarrow> (jsstring \<times> jsstring) option" where
  "parse_frac s =
     (case s of
        c # cs \<Rightarrow>
          if c = 0x2E then
            (if takeWhile is_digit cs = [] then None
             else Some (takeWhile is_digit cs, dropWhile is_digit cs))
          else Some ([], s)
      | [] \<Rightarrow> Some ([], s))"

definition parse_exp_digits :: "bool \<Rightarrow> jsstring \<Rightarrow> (int \<times> jsstring) option" where
  "parse_exp_digits neg s =
     (if takeWhile is_digit s = [] then None
      else Some ((if neg then - int (digits_val (takeWhile is_digit s))
                  else int (digits_val (takeWhile is_digit s))),
                 dropWhile is_digit s))"

definition parse_exp :: "jsstring \<Rightarrow> (int \<times> jsstring) option" where
  "parse_exp s =
     (case s of
        c # cs \<Rightarrow>
          if c = 0x65 \<or> c = 0x45 then
            (case cs of
               d # ds \<Rightarrow>
                 if d = 0x2B then parse_exp_digits False ds
                 else if d = 0x2D then parse_exp_digits True ds
                 else parse_exp_digits False cs
             | [] \<Rightarrow> None)
          else Some (0, s)
      | [] \<Rightarrow> Some (0, s))"

definition parse_number :: "jsstring \<Rightarrow> (json \<times> jsstring) option" where
  "parse_number s =
     (let neg = (s \<noteq> [] \<and> hd s = 0x2D);
          s1 = (if neg then tl s else s)
      in case parse_int_part s1 of
           None \<Rightarrow> None
         | Some (ip, s2) \<Rightarrow>
             (case parse_frac s2 of
                None \<Rightarrow> None
              | Some (fp, s3) \<Rightarrow>
                  (case parse_exp s3 of
                     None \<Rightarrow> None
                   | Some (ex, s4) \<Rightarrow>
                       Some (JNumber ((if neg then - 1 else 1) * int (digits_val (ip @ fp)))
                                     (ex - int (length fp)), s4))))"

text \<open>The literals \<open>true\<close>, \<open>false\<close> and \<open>null\<close> are matched as prefixes.\<close>

fun strip_prefix :: "'a list \<Rightarrow> 'a list \<Rightarrow> 'a list option" where
  "strip_prefix [] s = Some s"
| "strip_prefix (p # ps) [] = None"
| "strip_prefix (p # ps) (c # cs) = (if p = c then strip_prefix ps cs else None)"

text \<open>
  A repeated key of an object keeps its first place and takes the last value.
\<close>

fun obj_put :: "jsstring \<Rightarrow> json \<Rightarrow> (jsstring \<times> json) list \<Rightarrow> (jsstring \<times> json) list" where
  "obj_put k v [] = [(k, v)]"
| "obj_put k v ((k', v') # kvs) =
     (if k = k' then (k, v) # kvs else (k', v') # obj_put k v kvs)"

text \<open>
  A value, the elements of an array after its opening bracket, and the members of
  an object after its opening brace. \<open>parse_elements\<close> and \<open>parse_members\<close> are called
  on input whose leading white space has been skipped.
\<close>

fun parse_value :: "nat \<Rightarrow> jsstring \<Rightarrow> presult"
  and parse_elements :: "nat \<Rightarrow> jsstring \<Rightarrow> json list \<Rightarrow> presult"
  and parse_members :: "nat \<Rightarrow> jsstring \<Rightarrow> (jsstring \<times> json) list \<Rightarrow> presult"
where
  "parse_value 0 s = OutOfFuel"
| "parse_value (Suc n) s =
     (case s of
        [] \<Rightarrow> SyntaxError
      | c # cs \<Rightarrow>
          if c = 0x7B then
            (case skip_ws cs of
               [] \<Rightarrow> SyntaxError
             | d # ds \<Rightarrow> if d = 0x7D then Parsed (JObject []) ds
                         else parse_members n (d # ds) [])
          else if c = 0x5B then
            (case skip_ws cs of
               [] \<Rightarrow> SyntaxError
             | d # ds \<Rightarrow> if d = 0x5D then Parsed (JArray []) ds
                         else parse_elements n (d # ds) [])
          else if c = 0x22 then
            (case parse_string_body cs [] of
               Some (str, rest) \<Rightarrow> Parsed (JString str) rest
             | None \<Rightarrow> SyntaxError)
          else if c = 0x74 then
            (case strip_prefix (js ''true'') s of
               Some rest \<Rightarrow> Parsed (JBool True) rest | None \<Rightarrow> SyntaxError)
          else if c = 0x66 then
            (case strip_prefix (js ''false'') s of
               Some rest \<Rightarrow> Parsed (JBool False) rest | None \<Rightarrow> SyntaxError)
          else if c = 0x6E then
            (case strip_prefix (js ''null'') s of
               Some rest \<Rightarrow> Parsed JNull rest | None \<Rightarrow> SyntaxError)
          else
            (case parse_number s of
               Some (num, rest) \<Rightarrow> Parsed num rest
             | None \<Rightarrow> SyntaxError))"
| "parse_elements 0 s acc = OutOfFuel"
| "parse_elements (Suc n) s acc =
     (case parse_value n s of
        Parsed v r \<Rightarrow>
          (case skip_ws r of
             [] \<Rightarrow> SyntaxError
           | c # r' \<Rightarrow>
               if c = 0x2C then parse_elements n (skip_ws r') (acc @ [v])
               else if c = 0x5D then Parsed (JArray (acc @ [v])) r'
               else SyntaxError)
      | SyntaxError \<Rightarrow> SyntaxError
      | OutOfFuel \<Rightarrow> OutOfFuel)"
| "parse_members 0 s acc = OutOfFuel"
| "parse_members (Suc n) s acc =
     (case s of
        [] \<Rightarrow> SyntaxError
      | q # cs \<Rightarrow>
          if q \<noteq> 0x22 then SyntaxError
          else
            (case parse_string_body cs [] of
               None \<Rightarrow> SyntaxError
             | Some (k, r) \<Rightarrow>
                 (case skip_ws r of
                    [] \<Rightarrow> SyntaxError
                  | colon # r1 \<Rightarrow>
                      if colon \<noteq> 0x3A then SyntaxError
                      else
                        (case parse_value n (skip_ws r1) of
                           Parsed v r2 \<Rightarrow>
                             (case skip_ws r2 of
                                [] \<Rightarrow> SyntaxError
                              | c # r3 \<Rightarrow>
                                  if c = 0x2C then parse_members n (skip_ws r3) (obj_put k v acc)
                                  else if c = 0x7D then Parsed (JObject (obj_put k v acc)) r3
                                  else SyntaxError)
                         | SyntaxError \<Rightarrow> SyntaxError
                         | OutOfFuel \<Rightarrow> OutOfFuel))))"

text \<open>
  \<^verbatim>\<open>JSON.parse\<close>: one value with white space around it and nothing else; \<open>None\<close> stands
  for the \<^verbatim>\<open>SyntaxError\<close> it throws.
\<close>

definition JSON_parse :: "jsstring \<Rightarrow> json option" where
  "JSON_parse input =
     (case parse_value (2 * length input + 1) (skip_ws input) of
        Parsed v rest \<Rightarrow> if skip_ws rest = [] then Some v else None
      | SyntaxError \<Rightarrow> None
      | OutOfFuel \<Rightarrow> None)"

section \<open>Thrown values and responses\<close>

text \<open>
  What a \<^verbatim>\<open>throw\<close> carries: an object for which \<^verbatim>\<open>instanceof Error\<close> holds, with its
  message, or any other value.
\<close>

datatype thrown = Error jsstring | NonError

text \<open>
  \<^verbatim>\<open>interface InferenceResponse\<close> and \<^verbatim>\<open>interface SubtypingResponse\<close> have the same four
  fields; an optional field that is not set is \<open>None\<close>.
\<close>

record response =
  success :: bool
  result :: "json option"
  error :: "jsstring option"
  steps :: "json option"

text \<open>The property \<open>steps\<close> of a parsed value that is not \<^verbatim>\<open>null\<close>, if it has one.\<close>

definition steps_property :: "json \<Rightarrow> json option" where
  "steps_property parsed =
     (case parsed of JObject kvs \<Rightarrow> map_of kvs (js ''steps'') | _ \<Rightarrow> None)"

text \<open>Truthiness of a structured value, with \<open>None\<close> for \<^verbatim>\<open>undefined\<close>.\<close>

definition number_is_zero :: "int \<Rightarrow> int \<Rightarrow> bool" where
  "number_is_zero m e =
     (m = 0 \<or> (e < 0 \<and> \<bar>m\<bar> * 2 ^ 1075 \<le> 10 ^ nat (- e)))"

fun truthy :: "json option \<Rightarrow> bool" where
  "truthy None = False"
| "truthy (Some JNull) = False"
| "truthy (Some (JBool b)) = b"
| "truthy (Some (JNumber m e)) = (\<not> number_is_zero m e)"
| "truthy (Some (JString s)) = (s \<noteq> [])"
| "truthy (Some (JArray xs)) = True"
| "truthy (Some (JObject kvs)) = True"

text \<open>
  Reading \<^verbatim>\<open>result.steps\<close> from a parsed value. On \<^verbatim>\<open>null\<close> the read throws a
  \<^verbatim>\<open>TypeError\<close>, whose message depends on the engine and is never looked at by the
  code modelled here; on an object it is the property if there is one; arrays,
  strings, numbers and booleans have no such property.
\<close>

definition read_steps :: "json \<Rightarrow> thrown + json option" where
  "read_steps parsed =
     (case parsed of
        JNull \<Rightarrow> Inl (Error (js ''Cannot read properties of null''))
      | _ \<Rightarrow> Inr (steps_property parsed))"

text \<open>The text result of the inner \<^verbatim>\<open>catch\<close>: \<^verbatim>\<open>{ success: true, result: { type: output }, steps: [] }\<close>.\<close>

definition textResult :: "jsstring \<Rightarrow> response" where
  "textResult output =
     \<lparr>success = True, result = Some (JObject [(js ''type'', JString output)]),
      error = None, steps = Some (JArray [])\<rparr>"

text \<open>
  The inner \<^verbatim>\<open>try\<close>/\<^verbatim>\<open>catch\<close> of \<^verbatim>\<open>runInference\<close> and \<^verbatim>\<open>runSubtyping\<close>: both the parse
  and the read of \<^verbatim>\<open>result.steps\<close> are inside the \<^verbatim>\<open>try\<close>, so a throw of either one
  reaches the \<^verbatim>\<open>catch\<close>. \<^verbatim>\<open>result.steps || []\<close> is the property when it is truthy.
\<close>

definition decodeOutput :: "jsstring \<Rightarrow> response" where
  "decodeOutput output =
     (case JSON_parse output of
        None \<Rightarrow> textResult output
      | Some parsed \<Rightarrow>
          (case read_steps parsed of
             Inl e \<Rightarrow> textResult output
           | Inr st \<Rightarrow>
               \<lparr>success = True, result = Some parsed, error = None,
                steps = Some (if truthy st then the st else JArray [])\<rparr>))"

text \<open>
  The outer \<^verbatim>\<open>catch\<close> of both methods:
  \<^verbatim>\<open>{ success: false, error: error instanceof Error ? error.message : 'Unknown WASM error' }\<close>.
\<close>

definition messageOf :: "thrown \<Rightarrow> jsstring" where
  "messageOf e = (case e of Error m \<Rightarrow> m | NonError \<Rightarrow> js ''Unknown WASM error'')"

definition errorResponse :: "thrown \<Rightarrow> response" where
  "errorResponse e =
     \<lparr>success = False, result = None, error = Some (messageOf e), steps = None\<rparr>"

text \<open>
  The decoding rule in the words of the specification: trailing white space is
  trimmed, a parsed value is wrapped with \<open>steps: parsedValue.steps ?? []\<close>, where \<open>??\<close>
  replaces only a missing or null property, and a parse failure gives the text
  result.
\<close>

definition spec_steps :: "json \<Rightarrow> json" where
  "spec_steps parsed =
     (case parsed of
        JObject kvs \<Rightarrow>
          (case map_of kvs (js ''steps'') of
             None \<Rightarrow> JArray [] | Some JNull \<Rightarrow> JArray [] | Some v \<Rightarrow> v)
      | _ \<Rightarrow> JArray [])"

definition spec_decode :: "jsstring \<Rightarrow> response" where
  "spec_decode buffer =
     (case JSON_parse (trim_end buffer) of
        Some parsed \<Rightarrow>
          \<lparr>success = True, result = Some parsed, error = None,
           steps = Some (spec_steps parsed)\<rparr>
      | None \<Rightarrow> textResult (trim_end buffer))"

section \<open>The credential headers\<close>

text \<open>
  \<^verbatim>\<open>s.split(sep)\<close> for a separator that is not empty: the pieces between the
  occurrences of the separator, found from left to right without overlap.
\<close>

fun split_from :: "jsstring \<Rightarrow> jsstring \<Rightarrow> jsstring \<Rightarrow> jsstring list" where
  "split_from sep cur [] = [cur]"
| "split_from sep cur (c # cs) =
     (if take (length sep) (c # cs) = sep
      then cur # split_from sep [] (drop (length sep - 1) cs)
      else split_from sep (cur @ [c]) cs)"

text \<open>
  \<^verbatim>\<open>s.split(sep, limit)\<close>: the first \<open>limit\<close> pieces of the full split; what follows them
  is dropped.
\<close>

definition split_limit :: "jsstring \<Rightarrow> nat \<Rightarrow> jsstring \<Rightarrow> jsstring list" where
  "split_limit sep limit s = take limit (split_from sep [] s)"

text \<open>Whether \<open>sep\<close> occurs in a string as a block of adjacent code units.\<close>

fun occurs_in :: "jsstring \<Rightarrow> jsstring \<Rightarrow> bool" where
  "occurs_in sep [] = (sep = [])"
| "occurs_in sep (c # cs) = (take (length sep) (c # cs) = sep \<or> occurs_in sep cs)"

text \<open>The base64 alphabet and \<^verbatim>\<open>btoa\<close>, which throws on a code unit above 255.\<close>

definition b64_char :: "nat \<Rightarrow> 16 word" where
  "b64_char n =
     (if n < 26 then of_nat (0x41 + n)
      else if n < 52 then of_nat (0x61 + (n - 26))
      else if n < 62 then of_nat (0x30 + (n - 52))
      else if n = 62 then 0x2B
      else 0x2F)"

fun b64_encode :: "nat list \<Rightarrow> jsstring" where
  "b64_encode [] = []"
| "b64_encode [a] = [b64_char (a div 4), b64_char ((a mod 4) * 16), 0x3D, 0x3D]"
| "b64_encode [a, b] =
     [b64_char (a div 4), b64_char ((a mod 4) * 16 + b div 16),
      b64_char ((b mod 16) * 4), 0x3D]"
| "b64_encode (a # b # c # rest) =
     [b64_char (a div 4), b64_char ((a mod 4) * 16 + b div 16),
      b64_char ((b mod 16) * 4 + c div 64), b64_char (c mod 64)] @ b64_encode rest"

definition btoa :: "jsstring \<Rightarrow> thrown + jsstring" where
  "btoa s =
     (if list_ex (\<lambda>c. 0xFF < c) s then Inl (Error (js ''InvalidCharacterError''))
      else Inr (b64_encode (map unat s)))"

type_synonym headers = "jsstring \<rightharpoonup> jsstring"

text \<open>
  \<^verbatim>\<open>headers[key] = value\<close> on the plain object \<^verbatim>\<open>headers\<close>, for a string \<open>value\<close>: the
  object gets the property, or has it replaced. The key \<open>__proto__\<close> is the exception:
  it names the accessor of \<^verbatim>\<open>Object.prototype\<close>, whose setter ignores a string, so the
  object is left as it was.
\<close>

definition set_property :: "jsstring \<Rightarrow> jsstring \<Rightarrow> headers \<Rightarrow> headers" where
  "set_property key value obj = (if key = js ''__proto__'' then obj else obj(key \<mapsto> value))"

text \<open>
  The \<^verbatim>\<open>headers\<close> object of \<^verbatim>\<open>initialize\<close>, up to the \<^verbatim>\<open>fetch\<close>: it starts as
  \<^verbatim>\<open>{ 'Accept': 'application/wasm' }\<close>, and the \<^verbatim>\<open>switch\<close> on \<^verbatim>\<open>authType\<close> adds to it. The
  same statements, on \<^verbatim>\<open>source\<close> in place of \<^verbatim>\<open>this.wasmSource\<close>, open
  \<^verbatim>\<open>loadWasmWithAuth\<close>. The only throw is that of \<^verbatim>\<open>btoa\<close>.
\<close>

definition authHeaders :: "WasmSource \<Rightarrow> thrown + headers" where
  "authHeaders source =
     (let headers = [js ''Accept'' \<mapsto> js ''application/wasm''] in
      case authType source of
        Some AuthBearer \<Rightarrow>
          (if truthy_opt (authToken source)
           then Inr (headers(js ''Authorization'' \<mapsto> js ''Bearer '' @ the (authToken source)))
           else Inr headers)
      | Some AuthBasic \<Rightarrow>
          (if truthy_opt (authUsername source) \<and> truthy_opt (authPassword source)
           then (case btoa (the (authUsername source) @ js '':'' @ the (authPassword source)) of
                   Inl e \<Rightarrow> Inl e
                 | Inr credentials \<Rightarrow>
                     Inr (headers(js ''Authorization'' \<mapsto> js ''Basic '' @ credentials)))
           else Inr headers)
      | Some AuthHeader \<Rightarrow>
          (if truthy_opt (authHeader source)
           then (case split_limit (js '': '') 2 (the (authHeader source)) of
                   key # value # rest \<Rightarrow>
                     (if truthy_str key \<and> truthy_str value
                      then Inr (set_property (trim key) (trim value) headers)
                      else Inr headers)
                 | _ \<Rightarrow> Inr headers)
           else Inr headers)
      | Some AuthPresigned \<Rightarrow> Inr headers
      | _ \<Rightarrow> Inr headers)"

text \<open>
  The credential headers in the words of the specification: none for \<open>none\<close> and
  \<open>presigned\<close>, the bearer token, the base64 of \<open>user:pass\<close>, and for \<open>header\<close> the stored
  string cut at its first \<open>: \<close>.
\<close>

fun cut_at_first :: "jsstring \<Rightarrow> jsstring \<Rightarrow> jsstring \<Rightarrow> (jsstring \<times> jsstring) option" where
  "cut_at_first sep cur [] = None"
| "cut_at_first sep cur (c # cs) =
     (if take (length sep) (c # cs) = sep
      then Some (cur, drop (length sep - 1) cs)
      else cut_at_first sep (cur @ [c]) cs)"

definition text_of :: "jsstring option \<Rightarrow> jsstring" where
  "text_of v = (case v of None \<Rightarrow> [] | Some s \<Rightarrow> s)"

definition spec_credential_headers :: "WasmSource \<Rightarrow> headers" where
  "spec_credential_headers source =
     (case authType source of
        Some AuthBearer \<Rightarrow>
          [js ''Authorization'' \<mapsto> js ''Bearer '' @ text_of (authToken source)]
      | Some AuthBasic \<Rightarrow>
          [js ''Authorization'' \<mapsto>
             js ''Basic '' @ b64_encode (map unat (text_of (authUsername source) @
                                  js '':'' @ text_of (authPassword source)))]
      | Some AuthHeader \<Rightarrow>
          (case cut_at_first (js '': '') [] (text_of (authHeader source)) of
             Some (key, value) \<Rightarrow> [key \<mapsto> value]
           | None \<Rightarrow> Map.empty)
      | _ \<Rightarrow> Map.empty)"

section \<open>The host and the engine operations\<close>

text \<open>What \<^verbatim>\<open>fetch\<close> resolves to, as far as \<^verbatim>\<open>initialize\<close> reads it.\<close>

record fetch_response =
  ok :: bool
  status :: nat
  statusText :: jsstring
  lastModified :: "jsstring option"
  arrayBuffer :: "thrown + 8 word list"

text \<open>
  The capabilities the class consumes. \<open>fetch\<close> gets the url and the headers;
  \<open>compile\<close> is \<^verbatim>\<open>WebAssembly.compile\<close>; \<open>instantiate\<close> is \<^verbatim>\<open>WebAssembly.instantiate\<close> on the
  module with the imports of a \<^verbatim>\<open>WASI\<close> object built from the argument vector; \<open>start\<close>
  is \<^verbatim>\<open>wasi.start(instance)\<close>: the lines the module hands to the line-buffered
  standard output, and the value it throws if it does not complete.
\<close>

record host =
  fetch :: "jsstring \<Rightarrow> headers \<Rightarrow> thrown + fetch_response"
  compile :: "8 word list \<Rightarrow> thrown + wasm_module"
  instantiate :: "wasm_module \<Rightarrow> jsstring list \<Rightarrow> thrown + wasm_instance"
  start :: "jsstring list \<Rightarrow> wasm_instance \<Rightarrow> jsstring list \<times> thrown option"

text \<open>
  The constructor: \<^verbatim>\<open>new WasmTypeInference(wasmUrl)\<close> at time \<open>now\<close>.
\<close>

definition newEngine :: "jsstring \<Rightarrow> int \<Rightarrow> engine" where
  "newEngine wasmUrl now =
     \<lparr>wasmModule = None,
      wasmSource = \<lparr>id_src = js ''default'', name = js ''Type Inference Zoo (Default)'',
                    url = wasmUrl, authType = Some AuthNone, authToken = None,
                    authHeader = None, authUsername = None, authPassword = None,
                    isLocal = Some False, createdAt = now, lastUpdated = None\<rparr>,
      isInitialized = False, outputBuffer = [], activeInstances = {},
      maxConcurrentInstances = 2, poolHistory = []\<rparr>"

text \<open>
  \<^verbatim>\<open>initialize\<close>. Every throw inside its \<^verbatim>\<open>try\<close> is logged and turned into \<^verbatim>\<open>false\<close>.
  \<^verbatim>\<open>updateSourceInStorage\<close> writes to the browser storage and catches its own errors; it
  does not touch the fields of the engine and is left out.
\<close>

definition initialize :: "host \<Rightarrow> engine \<Rightarrow> bool \<times> engine" where
  "initialize h s =
     (if isInitialized s then (True, s)
      else
        (case authHeaders (wasmSource s) of
           Inl e \<Rightarrow> (False, s)
         | Inr headers \<Rightarrow>
             (case fetch h (url (wasmSource s)) headers of
                Inl e \<Rightarrow> (False, s)
              | Inr response \<Rightarrow>
                  if \<not> ok response then (False, s)
                  else
                    (case arrayBuffer response of
                       Inl e \<Rightarrow> (False, s)
                     | Inr wasmBytes \<Rightarrow>
                         (let s1 = (if truthy_opt (lastModified response)
                                    then s\<lparr>wasmSource :=
                                           (wasmSource s)\<lparr>lastUpdated := lastModified response\<rparr>\<rparr>
                                    else s)
                          in case compile h wasmBytes of
                               Inl e \<Rightarrow> (False, s1)
                             | Inr m \<Rightarrow>
                                 (True, s1\<lparr>wasmModule := Some m, isInitialized := True\<rparr>))))))"

text \<open>
  The opening lines of the three run methods:
  \<^verbatim>\<open>if (!this.isInitialized) { const initialized = await this.initialize(); ... }\<close>.
\<close>

definition ensureInitialized :: "host \<Rightarrow> engine \<Rightarrow> bool \<times> engine" where
  "ensureInitialized h s = (if \<not> isInitialized s then initialize h s else (True, s))"

text \<open>
  \<^verbatim>\<open>createInstance\<close> as one request sees it when nothing else runs during its waits:
  the delay taken at the cap has no effect on the fields then, and the instance is
  added to the active set once \<^verbatim>\<open>WebAssembly.instantiate\<close> has resolved. The
  interleaving of several calls is the subject of a section of its own.
\<close>

definition createInstance ::
  "host \<Rightarrow> jsstring list \<Rightarrow> engine \<Rightarrow> (thrown + wasm_instance) \<times> engine" where
  "createInstance h args s =
     (case wasmModule s of
        None \<Rightarrow> (Inl (Error (js ''WASM module not loaded'')), s)
      | Some m \<Rightarrow>
          (case instantiate h m args of
             Inl e \<Rightarrow> (Inl e, s)
           | Inr instance \<Rightarrow>
               (Inr instance,
                s\<lparr>activeInstances := insert instance (activeInstances s),
                  poolHistory := poolHistory s @ [Added instance]\<rparr>)))"

definition cleanupInstance :: "wasm_instance \<Rightarrow> engine \<Rightarrow> engine" where
  "cleanupInstance instance s =
     s\<lparr>activeInstances := activeInstances s - {instance},
       poolHistory := poolHistory s @ [Deleted instance]\<rparr>"

text \<open>
  The statements the three run methods share inside their outer \<^verbatim>\<open>try\<close>, from the
  check of the module to \<^verbatim>\<open>this.outputBuffer.trim()\<close>: the buffer is reset, the instance
  is created, \<^verbatim>\<open>wasi.start\<close> runs with each line appended to the buffer followed by a
  line feed, and the \<^verbatim>\<open>finally\<close> block removes the instance whether or not
  \<^verbatim>\<open>wasi.start\<close> threw. The result is the value thrown, or the trimmed buffer.
\<close>

definition invoke :: "host \<Rightarrow> jsstring list \<Rightarrow> engine \<Rightarrow> (thrown + jsstring) \<times> engine" where
  "invoke h args s =
     (case wasmModule s of
        None \<Rightarrow> (Inl (Error (js ''WASM module not loaded'')), s)
      | Some m \<Rightarrow>
          (case createInstance h args (s\<lparr>outputBuffer := []\<rparr>) of
             (Inl e, s1) \<Rightarrow> (Inl e, s1)
           | (Inr instance, s1) \<Rightarrow>
               (let (lines, trap) = start h args instance;
                    s2 = s1\<lparr>outputBuffer :=
                              outputBuffer s1 @ concat (map (\<lambda>msg. msg @ [0x0A]) lines)\<rparr>;
                    s3 = cleanupInstance instance s2
                in case trap of
                     Some e \<Rightarrow> (Inl e, s3)
                   | None \<Rightarrow> (Inr (trim (outputBuffer s3)), s3))))"

text \<open>
  \<^verbatim>\<open>runInference\<close>: the \<^verbatim>\<open>throw\<close> after a failed initialization stands before the outer
  \<^verbatim>\<open>try\<close>, so it leaves the method; a throw inside the \<^verbatim>\<open>try\<close> becomes a response.
\<close>

definition runInference ::
  "host \<Rightarrow> InferenceRequest \<Rightarrow> engine \<Rightarrow> (thrown + response) \<times> engine" where
  "runInference h request s =
     (case ensureInitialized h s of
        (False, s0) \<Rightarrow> (Inl (Error (js ''WASM module not available'')), s0)
      | (True, s0) \<Rightarrow>
          (case invoke h (inferenceArgs request) s0 of
             (Inl e, s1) \<Rightarrow> (Inr (errorResponse e), s1)
           | (Inr output, s1) \<Rightarrow> (Inr (decodeOutput output), s1)))"

text \<open>\<^verbatim>\<open>runSubtyping\<close>: the same statements on the subtyping argument vector.\<close>

definition runSubtyping ::
  "host \<Rightarrow> SubtypingRequest \<Rightarrow> engine \<Rightarrow> (thrown + response) \<times> engine" where
  "runSubtyping h request s =
     (case ensureInitialized h s of
        (False, s0) \<Rightarrow> (Inl (Error (js ''WASM module not available'')), s0)
      | (True, s0) \<Rightarrow>
          (case invoke h (subtypingArgs request) s0 of
             (Inl e, s1) \<Rightarrow> (Inr (errorResponse e), s1)
           | (Inr output, s1) \<Rightarrow> (Inr (decodeOutput output), s1)))"

text \<open>
  \<^verbatim>\<open>getMetadata\<close>: a parse failure throws inside the outer \<^verbatim>\<open>try\<close>, and the outer
  \<^verbatim>\<open>catch\<close> logs and throws again whatever reached it.
\<close>

definition getMetadata :: "host \<Rightarrow> engine \<Rightarrow> (thrown + json) \<times> engine" where
  "getMetadata h s =
     (case ensureInitialized h s of
        (False, s0) \<Rightarrow> (Inl (Error (js ''WASM module not available'')), s0)
      | (True, s0) \<Rightarrow>
          (case invoke h metadataArgs s0 of
             (Inl e, s1) \<Rightarrow> (Inl e, s1)
           | (Inr output, s1) \<Rightarrow>
               (case JSON_parse output of
                  Some parsed \<Rightarrow> (Inr parsed, s1)
                | None \<Rightarrow>
                    (Inl (Error (js ''Failed to parse metadata JSON from WASM'')), s1))))"

section \<open>Hosts for the examples\<close>

text \<open>
  A host whose server answers with an empty module and no \<open>Last-Modified\<close> header
  when \<open>online\<close> holds and whose \<open>fetch\<close> rejects otherwise; compilation and
  instantiation succeed, and the module prints \<open>lines\<close> and then throws \<open>trap\<close>, if
  there is one.
\<close>

definition example_host :: "bool \<Rightarrow> jsstring list \<Rightarrow> thrown option \<Rightarrow> host" where
  "example_host online lines trap =
     \<lparr>fetch = (\<lambda>u hs. if online
                then Inr \<lparr>ok = True, status = 200, statusText = js ''OK'',
                          lastModified = None, arrayBuffer = Inr []\<rparr>
                else Inl (Error (js ''Failed to fetch''))),
      compile = (\<lambda>bytes. Inr (Module 0)),
      instantiate = (\<lambda>m args. Inr (Instance 0)),
      start = (\<lambda>args i. (lines, trap))\<rparr>"

definition example_engine :: engine where
  "example_engine = newEngine (js ''https://files.typ.how/zoo.wasm'') 0"

definition example_request :: InferenceRequest where
  "example_request =
     \<lparr>algorithm = js ''HM'', variant = None, expression = js ''x'', options = None\<rparr>"

definition example_srequest :: SubtypingRequest where
  "example_srequest =
     \<lparr>algorithm_sub = js ''HM'', variant_sub = [], leftType = js ''Int'',
      rightType = js ''Top'', options_sub = None\<rparr>"

section \<open>Interleaved calls of the run methods\<close>

text \<open>
  \<^verbatim>\<open>createInstance\<close> is private: it is called by \<^verbatim>\<open>runInference\<close>, \<^verbatim>\<open>runSubtyping\<close> and
  \<^verbatim>\<open>getMetadata\<close> only, and each of them goes on, once \<^verbatim>\<open>createInstance\<close> has returned,
  with \<^verbatim>\<open>wasi.start\<close> and the \<^verbatim>\<open>finally\<close> block that calls \<^verbatim>\<open>cleanupInstance\<close>, without
  another \<^verbatim>\<open>await\<close> in between. All of them are asynchronous functions: a call runs
  up to an \<^verbatim>\<open>await\<close>, and what follows the \<^verbatim>\<open>await\<close> is run later from the queue of
  microtasks, which is emptied, first in first out, before the next timer or event
  is served. A call of a run method on an initialized engine passes through these
  stages: it has not been made; it found the active set at the cap and waits for its
  timer; it waits for \<^verbatim>\<open>WebAssembly.instantiate\<close>; its instance is in the active set; its
  instance has been removed; it threw.
\<close>

datatype stage = NotCalled | Delayed | Instantiating | Registered | Released | Threw

text \<open>
  The continuations of call number \<open>k\<close>, whose instance is \<open>Instance k\<close>:
  \<open>ResumeDelay\<close> is \<^verbatim>\<open>createInstance\<close> after the \<^verbatim>\<open>await\<close> of its timer, \<open>ResumeCreate\<close> is
  \<^verbatim>\<open>createInstance\<close> after the \<^verbatim>\<open>await\<close> of \<^verbatim>\<open>WebAssembly.instantiate\<close>, and \<open>ResumeRun\<close> is the
  run method after the \<^verbatim>\<open>await\<close> of \<^verbatim>\<open>createInstance\<close>.
\<close>

datatype microtask = ResumeDelay nat | ResumeCreate nat | ResumeRun nat

record pool =
  pool_engine :: engine
  stage_of :: "nat \<Rightarrow> stage"
  microtasks :: "microtask list"

text \<open>
  What happens from outside: page code calls a run method; the timer of a delayed
  call fires; the host settles an instantiation in a task of its own; the next
  microtask is run. A timer and a task of the host are served only when the queue of
  microtasks is empty.
\<close>

datatype pool_action =
  Call nat | TimerFires nat | InstantiateResolves nat | InstantiateRejects nat | Microtask

text \<open>
  \<^verbatim>\<open>const wasi = new WASI(...); const instance = await WebAssembly.instantiate(...)\<close>.
  The flag \<open>at_once\<close> says whether the host hands back a promise that is resolved
  already, as it does for a compiled module where instantiation is synchronous; the
  continuation is queued at the \<^verbatim>\<open>await\<close> then. Otherwise the continuation is queued by
  \<open>InstantiateResolves\<close>.
\<close>

definition begin_instantiate :: "bool \<Rightarrow> nat \<Rightarrow> pool \<Rightarrow> pool" where
  "begin_instantiate at_once k p =
     p\<lparr>stage_of := (stage_of p)(k := Instantiating),
       microtasks := microtasks p @ (if at_once then [ResumeCreate k] else [])\<rparr>"

text \<open>
  One microtask. After its timer \<^verbatim>\<open>createInstance\<close> goes on to the instantiation
  without looking at the size of the active set again. After the instantiation it
  adds the instance and returns, which queues the continuation of the run method.
  That continuation runs \<^verbatim>\<open>wasi.start\<close>, which is synchronous, and removes the instance
  in its \<^verbatim>\<open>finally\<close> block.
\<close>

fun run_microtask :: "bool \<Rightarrow> microtask \<Rightarrow> pool \<Rightarrow> pool" where
  "run_microtask at_once (ResumeDelay k) p = begin_instantiate at_once k p"
| "run_microtask at_once (ResumeCreate k) p =
     p\<lparr>pool_engine :=
         (pool_engine p)\<lparr>activeInstances := insert (Instance k) (activeInstances (pool_engine p)),
                          poolHistory := poolHistory (pool_engine p) @ [Added (Instance k)]\<rparr>,
       stage_of := (stage_of p)(k := Registered),
       microtasks := microtasks p @ [ResumeRun k]\<rparr>"
| "run_microtask at_once (ResumeRun k) p =
     p\<lparr>pool_engine := cleanupInstance (Instance k) (pool_engine p),
       stage_of := (stage_of p)(k := Released)\<rparr>"

text \<open>
  One step. In \<open>Call\<close> the run method tests the module, and \<^verbatim>\<open>createInstance\<close> tests
  \<^verbatim>\<open>this.activeInstances.size >= this.maxConcurrentInstances\<close>: if the test holds it
  awaits a timer of 100 ms, if not it goes on to the instantiation.
\<close>

fun pool_step :: "bool \<Rightarrow> pool_action \<Rightarrow> pool \<Rightarrow> pool" where
  "pool_step at_once (Call k) p =
     (if stage_of p k \<noteq> NotCalled then p
      else if wasmModule (pool_engine p) = None
      then p\<lparr>stage_of := (stage_of p)(k := Threw)\<rparr>
      else if card (activeInstances (pool_engine p)) \<ge> maxConcurrentInstances (pool_engine p)
      then p\<lparr>stage_of := (stage_of p)(k := Delayed)\<rparr>
      else begin_instantiate at_once k p)"
| "pool_step at_once (TimerFires k) p =
     (if stage_of p k = Delayed \<and> microtasks p = []
      then p\<lparr>microtasks := [ResumeDelay k]\<rparr>
      else p)"
| "pool_step at_once (InstantiateResolves k) p =
     (if stage_of p k = Instantiating \<and> \<not> at_once \<and> microtasks p = []
      then p\<lparr>microtasks := [ResumeCreate k]\<rparr>
      else p)"
| "pool_step at_once (InstantiateRejects k) p =
     (if stage_of p k = Instantiating \<and> \<not> at_once \<and> microtasks p = []
      then p\<lparr>stage_of := (stage_of p)(k := Threw)\<rparr>
      else p)"
| "pool_step at_once Microtask p =
     (case microtasks p of
        [] \<Rightarrow> p
      | m # rest \<Rightarrow> run_microtask at_once m (p\<lparr>microtasks := rest\<rparr>))"

fun pool_run :: "bool \<Rightarrow> pool_action list \<Rightarrow> pool \<Rightarrow> pool" where
  "pool_run at_once [] p = p"
| "pool_run at_once (x # xs) p = pool_run at_once xs (pool_step at_once x p)"

text \<open>No call made yet and nothing queued.\<close>

definition idle_pool :: "engine \<Rightarrow> pool" where
  "idle_pool s = \<lparr>pool_engine = s, stage_of = (\<lambda>k. NotCalled), microtasks = []\<rparr>"

text \<open>An engine whose module is loaded, with the default cap of 2 and no call made.\<close>

definition loaded_engine :: engine where
  "loaded_engine = example_engine\<lparr>wasmModule := Some (Module 0), isInitialized := True\<rparr>"

section \<open>The grammar cache\<close>

text \<open>
  The module-level \<^verbatim>\<open>grammarCache\<close> of the editor component. A promise is named by the
  order of its creation; the \<open>registry\<close> field plays no part in what follows and is
  left out.
\<close>

record 'd grammar_cache =
  promise :: "nat option"
  data :: "'d option"

datatype 'd settled = Pending | Fulfilled 'd | Rejected thrown

text \<open>
  What one call of \<^verbatim>\<open>loadTextMateGrammar\<close> hands to its component in the end: the
  grammar data (\<^verbatim>\<open>onSyntaxHighlightingChange(result)\<close>), the fallback after it caught
  the failure of the load (\<^verbatim>\<open>onSyntaxHighlightingChange(null)\<close>), or \<^verbatim>\<open>null\<close> because
  highlighting is switched off.
\<close>

datatype 'd report = Highlighting 'd | Fallback thrown | Disabled

text \<open>
  The cache, the promises created so far, the number of times the loader
  \<^verbatim>\<open>wasmInference.requestTextMateGrammar\<close> has been invoked, the calls that are waiting
  at an \<^verbatim>\<open>await\<close> with the promise they wait for, and the reports made, in order.
\<close>

record 'd page =
  grammarCache :: "'d grammar_cache"
  promises :: "'d settled list"
  loads :: nat
  waiters :: "(nat \<times> nat) list"
  reports :: "(nat \<times> 'd report) list"

text \<open>
  \<open>Load c enabled\<close>: component \<open>c\<close> calls \<^verbatim>\<open>loadTextMateGrammar\<close>, which runs to its first
  \<^verbatim>\<open>await\<close>. \<open>Settle p outcome\<close>: the asynchronous block behind promise \<open>p\<close> ends, with the
  grammar data once the loader and the registration are through, or with what one of
  them threw; the calls waiting for \<open>p\<close> then go on.

  The loader is not part of the component. What the component's code depends on is
  whether the call of the loader throws before its first \<^verbatim>\<open>await\<close>, as the call of a
  method that the engine does not have does, or hands back a promise. The parameter
  \<open>loader\<close> says so for each invocation, counted from 0: \<open>Some e\<close> when the call throws
  \<open>e\<close>, \<open>None\<close> when it hands back a promise, which \<open>Settle\<close> settles later.

  When the call throws, the \<^verbatim>\<open>catch\<close> of the asynchronous block runs at once: it sets
  \<^verbatim>\<open>grammarCache.promise = null\<close> and throws again, so the block returns a rejected
  promise. Only then does the assignment \<^verbatim>\<open>grammarCache.promise = (async () => ...)()\<close>
  take place, and it stores that rejected promise in the cache. The caller awaits it
  and reports the fallback.
\<close>

datatype 'd cache_event = Load nat bool | Settle nat "thrown + 'd"

definition report_of :: "'d settled \<Rightarrow> 'd report option" where
  "report_of x =
     (case x of Pending \<Rightarrow> None | Fulfilled d \<Rightarrow> Some (Highlighting d)
      | Rejected e \<Rightarrow> Some (Fallback e))"

fun cache_step :: "(nat \<Rightarrow> thrown option) \<Rightarrow> 'd cache_event \<Rightarrow> 'd page \<Rightarrow> 'd page" where
  "cache_step loader (Load c enabled) s =
     (if \<not> enabled then s\<lparr>reports := reports s @ [(c, Disabled)]\<rparr>
      else
        (case data (grammarCache s) of
           Some d \<Rightarrow> s\<lparr>reports := reports s @ [(c, Highlighting d)]\<rparr>
         | None \<Rightarrow>
             (case promise (grammarCache s) of
                Some p \<Rightarrow>
                  (case report_of (promises s ! p) of
                     None \<Rightarrow> s\<lparr>waiters := waiters s @ [(c, p)]\<rparr>
                   | Some r \<Rightarrow> s\<lparr>reports := reports s @ [(c, r)]\<rparr>)
              | None \<Rightarrow>
                  (case loader (loads s) of
                     None \<Rightarrow>
                       s\<lparr>grammarCache :=
                           (grammarCache s)\<lparr>promise := Some (length (promises s))\<rparr>,
                         promises := promises s @ [Pending],
                         loads := loads s + 1,
                         waiters := waiters s @ [(c, length (promises s))]\<rparr>
                   | Some e \<Rightarrow>
                       s\<lparr>grammarCache :=
                           (grammarCache s)\<lparr>promise := Some (length (promises s))\<rparr>,
                         promises := promises s @ [Rejected e],
                         loads := loads s + 1,
                         reports := reports s @ [(c, Fallback e)]\<rparr>))))"
| "cache_step loader (Settle p outcome) s =
     (if p < length (promises s) \<and> promises s ! p = Pending
      then
        (case outcome of
           Inr d \<Rightarrow>
             s\<lparr>grammarCache := (grammarCache s)\<lparr>data := Some d\<rparr>,
               promises := (promises s)[p := Fulfilled d],
               waiters := filter (\<lambda>w. snd w \<noteq> p) (waiters s),
               reports := reports s @
                 map (\<lambda>w. (fst w, Highlighting d)) (filter (\<lambda>w. snd w = p) (waiters s))\<rparr>
         | Inl e \<Rightarrow>
             s\<lparr>grammarCache := (grammarCache s)\<lparr>promise := None\<rparr>,
               promises := (promises s)[p := Rejected e],
               waiters := filter (\<lambda>w. snd w \<noteq> p) (waiters s),
               reports := reports s @
                 map (\<lambda>w. (fst w, Fallback e)) (filter (\<lambda>w. snd w = p) (waiters s))\<rparr>)
      else s)"

fun cache_run :: "(nat \<Rightarrow> thrown option) \<Rightarrow> 'd cache_event list \<Rightarrow> 'd page \<Rightarrow> 'd page" where
  "cache_run loader [] s = s"
| "cache_run loader (x # xs) s = cache_run loader xs (cache_step loader x s)"

text \<open>
  A loader whose every call hands back a promise, and one whose every call throws
  \<open>e\<close> before its first \<^verbatim>\<open>await\<close>.
\<close>

definition promising :: "nat \<Rightarrow> thrown option" where
  "promising n = None"

definition throwing :: "thrown \<Rightarrow> nat \<Rightarrow> thrown option" where
  "throwing e n = Some e"

text \<open>The page as the module is loaded: \<^verbatim>\<open>{ promise: null, data: null, registry: null }\<close>.\<close>

definition empty_page :: "'d page" where
  "empty_page =
     \<lparr>grammarCache = \<lparr>promise = None, data = None\<rparr>, promises = [], loads = 0,
      waiters = [], reports = []\<rparr>"

text \<open>
  What is thrown inside the outer \<^verbatim>\<open>try\<close> of a run method before the decoding, if
  anything: the module is missing, the instantiation fails, or \<^verbatim>\<open>wasi.start\<close> throws.
\<close>

definition sandbox_failure :: "host \<Rightarrow> engine \<Rightarrow> jsstring list \<Rightarrow> thrown option" where
  "sandbox_failure h s args =
     (case wasmModule s of
        None \<Rightarrow> Some (Error (js ''WASM module not loaded''))
      | Some m \<Rightarrow>
          (case instantiate h m args of
             Inl e \<Rightarrow> Some e
           | Inr i \<Rightarrow> snd (start h args i)))"

text \<open>
  The trimmed output of the module on an argument vector, when the module is
  present, its instantiation succeeds and \<^verbatim>\<open>wasi.start\<close> completes.
\<close>

definition sandbox_output :: "host \<Rightarrow> engine \<Rightarrow> jsstring list \<Rightarrow> jsstring option" where
  "sandbox_output h s args =
     (case wasmModule s of
        None \<Rightarrow> None
      | Some m \<Rightarrow>
          (case instantiate h m args of
             Inl e \<Rightarrow> None
           | Inr i \<Rightarrow>
               (case start h args i of
                  (lines, None) \<Rightarrow> Some (trim (concat (map (\<lambda>msg. msg @ [0x0A]) lines)))
                | (lines, Some e) \<Rightarrow> None)))"

section \<open>Properties\<close>

subsection \<open>The parser does not run out of steps\<close>

text \<open>
  Every parsing function returns a rest that is no longer than its input, and the
  bound of \<^verbatim>\<open>JSON_parse\<close> is enough for every input: the answer \<open>OutOfFuel\<close> does not
  occur, so \<open>None\<close> is always a syntax error.
\<close>

lemma skip_ws_length: "length (skip_ws s) \<le> length s"
  by (simp add: skip_ws_def length_dropWhile_le)

lemma strip_prefix_length:
  "strip_prefix p s = Some rest \<Longrightarrow> length rest \<le> length s"
  by (induction p s rule: strip_prefix.induct) (auto split: if_splits)

lemma parse_string_body_length:
  "parse_string_body s acc = Some (str, rest) \<Longrightarrow> length rest < length s"
proof (induction s acc rule: parse_string_body.induct)
  case (1 acc)
  then show ?case by simp
next
  case (2 c cs acc)
  show ?case
  proof (cases "c = 0x22")
    case True
    with "2.prems" show ?thesis by simp
  next
    case quote: False
    show ?thesis
    proof (cases "c = 0x5C")
      case True
      show ?thesis
      proof (cases cs)
        case Nil
        with "2.prems" quote True show ?thesis by simp
      next
        case (Cons e es)
        show ?thesis
        proof (cases "e = 0x75")
          case u: True
          from "2.prems" quote True Cons u obtain h1 h2 h3 h4 rest' uu where
            es: "es = h1 # h2 # h3 # h4 # rest'" and hx: "hex4 h1 h2 h3 h4 = Some uu"
            and rec: "parse_string_body rest' (acc @ [uu]) = Some (str, rest)"
            by (auto split: list.splits option.splits)
          have "length rest < length rest'"
            using "2.IH"(1) [of e es h1 "h2 # h3 # h4 # rest'" h2 "h3 # h4 # rest'" h3
                "h4 # rest'" h4 rest' uu] quote True Cons u es hx rec
            by simp
          then show ?thesis
            using Cons es by simp
        next
          case nu: False
          from "2.prems" quote True Cons nu obtain x where
            se: "simple_escape e = Some x"
            and rec: "parse_string_body es (acc @ [x]) = Some (str, rest)"
            by (auto split: option.splits)
          from "2.IH"(2) [OF quote True Cons nu se rec] show ?thesis
            using Cons by simp
        qed
      qed
    next
      case False
      with "2.prems" quote have ctl: "\<not> c < 0x20"
        and rec: "parse_string_body cs (acc @ [c]) = Some (str, rest)"
        by (auto split: if_splits)
      from "2.IH"(3) [OF quote False ctl rec] show ?thesis by simp
    qed
  qed
qed

lemma dropWhile_le: "length (dropWhile P xs) \<le> length xs"
  by (rule length_dropWhile_le)

lemma parse_int_part_length:
  "parse_int_part s = Some (ip, r) \<Longrightarrow> length r \<le> length s"
  by (auto simp: parse_int_part_def length_dropWhile_le le_SucI split: list.splits if_splits)

lemma parse_frac_length:
  "parse_frac s = Some (fp, r) \<Longrightarrow> length r \<le> length s"
  by (auto simp: parse_frac_def length_dropWhile_le le_SucI split: list.splits if_splits)

lemma parse_exp_digits_length:
  "parse_exp_digits neg s = Some (ex, r) \<Longrightarrow> length r \<le> length s"
  by (auto simp: parse_exp_digits_def length_dropWhile_le split: if_splits)

lemma parse_exp_length:
  "parse_exp s = Some (ex, r) \<Longrightarrow> length r \<le> length s"
  by (auto simp: parse_exp_def le_SucI split: list.splits if_splits
      dest!: parse_exp_digits_length)

lemma parse_number_length:
  assumes "parse_number s = Some (v, rest)"
  shows "length rest \<le> length s"
proof -
  let ?s1 = "if s \<noteq> [] \<and> hd s = 0x2D then tl s else s"
  from assms obtain ip s2 fp s3 ex where
    a: "parse_int_part ?s1 = Some (ip, s2)" and b: "parse_frac s2 = Some (fp, s3)"
    and c: "parse_exp s3 = Some (ex, rest)"
    by (auto simp: parse_number_def Let_def split: option.splits)
  have "length ?s1 \<le> length s" by simp
  with parse_int_part_length [OF a] parse_frac_length [OF b] parse_exp_length [OF c]
  show ?thesis by linarith
qed

lemma skip_ws_Cons: "skip_ws s = d # ds \<Longrightarrow> length ds < length s"
  using skip_ws_length [of s] by simp

lemma parse_rest_length:
  "(\<forall>s v r. parse_value n s = Parsed v r \<longrightarrow> length r \<le> length s) \<and>
   (\<forall>s acc v r. parse_elements n s acc = Parsed v r \<longrightarrow> length r \<le> length s) \<and>
   (\<forall>s acc v r. parse_members n s acc = Parsed v r \<longrightarrow> length r \<le> length s)"
proof (induction n)
  case 0
  show ?case by simp
next
  case (Suc n)
  then have V: "\<And>s v r. parse_value n s = Parsed v r \<Longrightarrow> length r \<le> length s"
    and E: "\<And>s acc v r. parse_elements n s acc = Parsed v r \<Longrightarrow> length r \<le> length s"
    and M: "\<And>s acc v r. parse_members n s acc = Parsed v r \<Longrightarrow> length r \<le> length s"
    by blast+
  have pv: "length r \<le> length s" if "parse_value (Suc n) s = Parsed v r" for s v r
  proof (cases s)
    case Nil
    with that show ?thesis by simp
  next
    case (Cons c cs)
    with that show ?thesis
      by (auto split: if_splits list.splits option.splits
          dest!: E M skip_ws_Cons parse_string_body_length strip_prefix_length
            parse_number_length)
  qed
  have pe: "length r \<le> length s" if "parse_elements (Suc n) s acc = Parsed v r"
    for s acc v r
  proof -
    from that obtain w r0 c r1 where
      a: "parse_value n s = Parsed w r0" and b: "skip_ws r0 = c # r1"
      and c: "(c = 0x2C \<and> parse_elements n (skip_ws r1) (acc @ [w]) = Parsed v r) \<or>
              (c = 0x5D \<and> r = r1)"
      by (auto split: presult.splits list.splits if_splits)
    have "length r \<le> length r1"
      using c E [of "skip_ws r1" "acc @ [w]" v r] skip_ws_length [of r1] by auto
    with V [OF a] skip_ws_Cons [OF b] show ?thesis by linarith
  qed
  have pm: "length r \<le> length s" if "parse_members (Suc n) s acc = Parsed v r"
    for s acc v r
  proof -
    from that obtain q cs k r0 colon r1 w r2 c r3 where
      s: "s = q # cs" and a: "parse_string_body cs [] = Some (k, r0)"
      and b: "skip_ws r0 = colon # r1"
      and d: "parse_value n (skip_ws r1) = Parsed w r2"
      and e: "skip_ws r2 = c # r3"
      and f: "(c = 0x2C \<and> parse_members n (skip_ws r3) (obj_put k w acc) = Parsed v r) \<or>
              (c = 0x7D \<and> r = r3)"
      by (auto split: presult.splits list.splits if_splits option.splits)
    have "length r \<le> length r3"
      using f M [of "skip_ws r3" "obj_put k w acc" v r] skip_ws_length [of r3] by auto
    with parse_string_body_length [OF a] skip_ws_Cons [OF b] V [OF d]
      skip_ws_length [of r1] skip_ws_Cons [OF e] s
    show ?thesis by simp
  qed
  show ?case
    using pv pe pm by blast
qed

lemmas parse_value_rest = parse_rest_length [THEN conjunct1, rule_format]

lemma fuel_suffices:
  "(\<forall>s. 2 * length s + 1 \<le> n \<longrightarrow> parse_value n s \<noteq> OutOfFuel) \<and>
   (\<forall>s acc. 2 * length s + 2 \<le> n \<longrightarrow> parse_elements n s acc \<noteq> OutOfFuel) \<and>
   (\<forall>s acc. 2 * length s + 2 \<le> n \<longrightarrow> parse_members n s acc \<noteq> OutOfFuel)"
proof (induction n)
  case 0
  show ?case by simp
next
  case (Suc n)
  then have V: "\<And>s. 2 * length s + 1 \<le> n \<Longrightarrow> parse_value n s \<noteq> OutOfFuel"
    and E: "\<And>s acc. 2 * length s + 2 \<le> n \<Longrightarrow> parse_elements n s acc \<noteq> OutOfFuel"
    and M: "\<And>s acc. 2 * length s + 2 \<le> n \<Longrightarrow> parse_members n s acc \<noteq> OutOfFuel"
    by blast+
  have pv: "parse_value (Suc n) s \<noteq> OutOfFuel" if "2 * length s + 1 \<le> Suc n" for s
  proof (cases s)
    case Nil
    then show ?thesis by simp
  next
    case (Cons c cs)
    have sub: "2 * length (d # ds) + 2 \<le> n" if "skip_ws cs = d # ds" for d ds
      using skip_ws_Cons [OF that] \<open>2 * length s + 1 \<le> Suc n\<close> Cons by simp
    show ?thesis
      using Cons E [OF sub] M [OF sub]
      by (auto split: list.splits option.splits)
  qed
  have pe: "parse_elements (Suc n) s acc \<noteq> OutOfFuel" if "2 * length s + 2 \<le> Suc n"
    for s acc
  proof (cases "parse_value n s")
    case (Parsed w r0)
    show ?thesis
    proof (cases "skip_ws r0")
      case Nil
      with Parsed show ?thesis by simp
    next
      case (Cons c r1)
      have "2 * length (skip_ws r1) + 2 \<le> n"
        using parse_value_rest [OF Parsed] skip_ws_Cons [OF Cons] skip_ws_length [of r1] that
        by simp
      from E [OF this] Parsed Cons show ?thesis by simp
    qed
  next
    case SyntaxError
    then show ?thesis by simp
  next
    case OutOfFuel
    with V [of s] that show ?thesis by simp
  qed
  have pm: "parse_members (Suc n) s acc \<noteq> OutOfFuel" if "2 * length s + 2 \<le> Suc n"
    for s acc
  proof (cases s)
    case Nil
    then show ?thesis by simp
  next
    case s: (Cons q cs)
    show ?thesis
    proof (cases "parse_string_body cs []")
      case None
      with s show ?thesis by simp
    next
      case (Some kr)
      obtain k r0 where kr: "kr = (k, r0)" by (cases kr)
      show ?thesis
      proof (cases "skip_ws r0")
        case Nil
        with s Some kr show ?thesis by simp
      next
        case r0: (Cons colon r1)
        have l1: "length (skip_ws r1) + 2 < length s"
          using parse_string_body_length [of cs "[]" k r0] Some kr skip_ws_Cons [OF r0]
            skip_ws_length [of r1] s
          by simp
        show ?thesis
        proof (cases "parse_value n (skip_ws r1)")
          case (Parsed w r2)
          show ?thesis
          proof (cases "skip_ws r2")
            case Nil
            with s Some kr r0 Parsed show ?thesis by simp
          next
            case (Cons c r3)
            have "2 * length (skip_ws r3) + 2 \<le> n"
              using parse_value_rest [OF Parsed] skip_ws_Cons [OF Cons]
                skip_ws_length [of r3] l1 that
              by simp
            from M [OF this] s Some kr r0 Parsed Cons show ?thesis by simp
          qed
        next
          case SyntaxError
          with s Some kr r0 show ?thesis by simp
        next
          case OutOfFuel
          have "2 * length (skip_ws r1) + 1 \<le> n"
            using l1 that by simp
          with V [of "skip_ws r1"] OutOfFuel show ?thesis by simp
        qed
      qed
    qed
  qed
  show ?case
    using pv pe pm by blast
qed

lemma JSON_parse_fuel:
  "parse_value (2 * length input + 1) (skip_ws input) \<noteq> OutOfFuel"
  using fuel_suffices [of "2 * length input + 1"] skip_ws_length [of input]
  by simp

text \<open>The parser on some inputs: nesting, numbers, a repeated key, escapes, and errors.\<close>

lemma JSON_parse_examples:
  "JSON_parse (js '' [1, -2.50e3, true, null, {\"a\": [], \"a\": \"x\"}] '') =
     Some (JArray [JNumber 1 0, JNumber (- 250) 1, JBool True, JNull,
                   JObject [(js ''a'', JString (js ''x''))]])"
  "JSON_parse ([0x22, 0x5C] @ js ''u00e9'' @ [0x5C] @ js ''n'' @ [0x22]) =
     Some (JString [0xE9, 0x0A])"
  "JSON_parse (js ''01'') = None"
  "JSON_parse (js ''[1,]'') = None"
  "JSON_parse (js ''{\"a\" 1}'') = None"
  "JSON_parse [] = None"
  by code_simp+

subsection \<open>Facts about the run methods\<close>

lemma invoke_no_module:
  "wasmModule s = None \<Longrightarrow> invoke h args s = (Inl (Error (js ''WASM module not loaded'')), s)"
  by (simp add: invoke_def)

lemma invoke_not_instantiated:
  "wasmModule s = Some m \<Longrightarrow> instantiate h m args = Inl e \<Longrightarrow>
   invoke h args s = (Inl e, s\<lparr>outputBuffer := []\<rparr>)"
  by (simp add: invoke_def createInstance_def)

lemma invoke_started:
  "wasmModule s = Some m \<Longrightarrow> instantiate h m args = Inr i \<Longrightarrow>
   start h args i = (lines, trap) \<Longrightarrow>
   invoke h args s =
     ((case trap of Some e \<Rightarrow> Inl e
       | None \<Rightarrow> Inr (trim (concat (map (\<lambda>msg. msg @ [0x0A]) lines)))),
      s\<lparr>outputBuffer := concat (map (\<lambda>msg. msg @ [0x0A]) lines),
        activeInstances := insert i (activeInstances s) - {i},
        poolHistory := poolHistory s @ [Added i, Deleted i]\<rparr>)"
  by (simp add: invoke_def createInstance_def cleanupInstance_def split: option.splits)

lemma invoke_output:
  "sandbox_output h s args = Some out \<Longrightarrow> fst (invoke h args s) = Inr out"
  by (auto simp: sandbox_output_def invoke_started split: option.splits sum.splits prod.splits)

lemma initialize_pool:
  "activeInstances (snd (initialize h s)) = activeInstances s \<and>
   poolHistory (snd (initialize h s)) = poolHistory s"
  by (simp add: initialize_def Let_def split: sum.splits)

lemma ensureInitialized_pool:
  "ensureInitialized h s = (b, s0) \<Longrightarrow>
   activeInstances s0 = activeInstances s \<and> poolHistory s0 = poolHistory s"
  using initialize_pool [of h s] by (auto simp: ensureInitialized_def split: if_splits)

lemma example_online:
  "ensureInitialized (example_host True lines trap) example_engine = (True, loaded_engine)"
  by (simp add: ensureInitialized_def initialize_def example_host_def example_engine_def
      newEngine_def authHeaders_def truthy_opt_def loaded_engine_def)

lemma example_offline:
  "ensureInitialized (example_host False lines trap) example_engine = (False, example_engine)"
  by (simp add: ensureInitialized_def initialize_def example_host_def example_engine_def
      newEngine_def authHeaders_def truthy_opt_def)

lemma JSON_parse_null: "JSON_parse (js ''null'') = Some JNull"
  by code_simp

lemma runInference_decodes:
  "ensureInitialized h s = (True, s0) \<Longrightarrow> sandbox_output h s0 (inferenceArgs request) = Some out \<Longrightarrow>
   fst (runInference h request s) = Inr (decodeOutput out)"
  using invoke_output [of h s0 "inferenceArgs request" out]
  by (auto simp: runInference_def split: prod.splits sum.splits)

lemma runSubtyping_decodes:
  "ensureInitialized h s = (True, s0) \<Longrightarrow> sandbox_output h s0 (subtypingArgs request) = Some out \<Longrightarrow>
   fst (runSubtyping h request s) = Inr (decodeOutput out)"
  using invoke_output [of h s0 "subtypingArgs request" out]
  by (auto simp: runSubtyping_def split: prod.splits sum.splits)

lemma getMetadata_parses:
  "ensureInitialized h s = (True, s0) \<Longrightarrow> sandbox_output h s0 metadataArgs = Some out \<Longrightarrow>
   fst (getMetadata h s) =
     (case JSON_parse out of Some parsed \<Rightarrow> Inr parsed
      | None \<Rightarrow> Inl (Error (js ''Failed to parse metadata JSON from WASM'')))"
  using invoke_output [of h s0 metadataArgs out]
  by (auto simp: getMetadata_def split: prod.splits sum.splits option.splits)

lemma invoke_failure:
  assumes "sandbox_failure h s args = Some e"
  shows "fst (invoke h args s) = Inl e"
proof (cases "wasmModule s")
  case None
  then show ?thesis
    using assms by (simp add: sandbox_failure_def invoke_no_module)
next
  case (Some m)
  show ?thesis
  proof (cases "instantiate h m args")
    case (Inl x)
    then show ?thesis
      using assms Some by (simp add: sandbox_failure_def invoke_not_instantiated)
  next
    case (Inr i)
    obtain lines trap where st: "start h args i = (lines, trap)"
      by (cases "start h args i")
    show ?thesis
      using assms Some Inr st by (simp add: sandbox_failure_def invoke_started [OF Some Inr st])
  qed
qed

subsection \<open>Request encoding\<close>

text \<open>
  Claim C6. An inference request encodes to \<open>infer --typing algorithm expression\<close>, with
  \<open>--variant variant\<close> inserted before the expression exactly when a variant is present;
  a subtyping request encodes to \<open>infer --subtyping algorithm leftType rightType\<close> with the
  same insertion; a metadata request encodes to \<open>infer --meta\<close>; and the argument vector
  does not depend on the options of the request. A variant is present when the field
  holds a non-empty string: the subtyping request always has the field, so the empty
  string is its way of having no variant.
\<close>

theorem encode_argument_vectors:
  "inferenceArgs \<lparr>algorithm = a, variant = v, expression = e, options = opts\<rparr> =
     [js ''infer'', js ''--typing'', a] @
     (if v \<noteq> None \<and> v \<noteq> Some [] then [js ''--variant'', the v] else []) @ [e]
   \<and> subtypingArgs \<lparr>algorithm_sub = a, variant_sub = w, leftType = l, rightType = r,
                    options_sub = opts\<rparr> =
     [js ''infer'', js ''--subtyping'', a] @
     (if w \<noteq> [] then [js ''--variant'', w] else []) @ [l, r]
   \<and> metadataArgs = [js ''infer'', js ''--meta'']
   \<and> inferenceArgs (request\<lparr>options := opts'\<rparr>) = inferenceArgs request
   \<and> subtypingArgs (srequest\<lparr>options_sub := opts'\<rparr>) = subtypingArgs srequest"
  by (auto simp: inferenceArgs_def subtypingArgs_def metadataArgs_def truthy_opt_def
      truthy_str_def split: option.splits)

theorem encode_argument_vectors_witness:
  "inferenceArgs \<lparr>algorithm = js ''HM'', variant = Some (js ''let-poly''),
                  expression = js ''x'', options = None\<rparr> =
     [js ''infer'', js ''--typing'', js ''HM'', js ''--variant'', js ''let-poly'', js ''x'']
   \<and> subtypingArgs \<lparr>algorithm_sub = js ''HM'', variant_sub = [], leftType = js ''Int'',
                    rightType = js ''Top'', options_sub = None\<rparr> =
     [js ''infer'', js ''--subtyping'', js ''HM'', js ''Int'', js ''Top'']"
  using encode_argument_vectors [where a = "js ''HM''" and v = "Some (js ''let-poly'')"
      and e = "js ''x''" and opts = None and w = "[]" and l = "js ''Int''"
      and r = "js ''Top''"]
  by simp

subsection \<open>Changing the source\<close>

text \<open>
  Claim C4. \<^verbatim>\<open>updateWasmSource\<close> compares the url and the five auth fields of the new
  descriptor with the current one. When all six are equal the call changes nothing:
  the engine is returned as it was, whatever the id, name and time stamps of the new
  descriptor, and an initialized engine stays ready without a fetch. When one
  differs, the compiled module is dropped, the active set is emptied, the engine is
  not initialized any more and the new descriptor is stored; the next call then
  loads again from the new descriptor: it fetches the new url with the headers of the
  new descriptor and ends with the module compiled from the bytes it got, and when
  the headers or that fetch fail, the call fails instead of using the old module.
\<close>

theorem updateWasmSource_compares_configuration:
  "(same_configuration (wasmSource s) newSource \<longrightarrow> updateWasmSource newSource s = s) \<and>
   (\<not> same_configuration (wasmSource s) newSource \<longrightarrow>
      wasmModule (updateWasmSource newSource s) = None \<and>
      activeInstances (updateWasmSource newSource s) = {} \<and>
      \<not> isInitialized (updateWasmSource newSource s) \<and>
      wasmSource (updateWasmSource newSource s) = newSource) \<and>
   (same_configuration (wasmSource s) newSource \<and> isInitialized s \<longrightarrow>
      ensureInitialized h (updateWasmSource newSource s) = (True, s)) \<and>
   (\<not> same_configuration (wasmSource s) newSource \<and>
    authHeaders newSource = Inr hs \<and> fetch h (url newSource) hs = Inr resp \<and> ok resp \<and>
    arrayBuffer resp = Inr bytes \<and> compile h bytes = Inr m \<longrightarrow>
      fst (ensureInitialized h (updateWasmSource newSource s)) \<and>
      wasmModule (snd (ensureInitialized h (updateWasmSource newSource s))) = Some m \<and>
      isInitialized (snd (ensureInitialized h (updateWasmSource newSource s)))) \<and>
   (\<not> same_configuration (wasmSource s) newSource \<and>
    (authHeaders newSource = Inl e \<or>
     (authHeaders newSource = Inr hs \<and> fetch h (url newSource) hs = Inl e)) \<longrightarrow>
      \<not> fst (ensureInitialized h (updateWasmSource newSource s)) \<and>
      fst (runInference h request (updateWasmSource newSource s)) =
        Inl (Error (js ''WASM module not available'')))"
proof -
  let ?s = "updateWasmSource newSource s"
  have noop: "?s = s" if "same_configuration (wasmSource s) newSource"
    using that by (auto simp: updateWasmSource_def same_configuration_def)
  have reset: "wasmModule ?s = None \<and> activeInstances ?s = {} \<and> \<not> isInitialized ?s \<and>
      wasmSource ?s = newSource"
    if "\<not> same_configuration (wasmSource s) newSource"
    using that
    by (auto simp: updateWasmSource_def same_configuration_def clearActiveInstances_def)
  have ready: "ensureInitialized h ?s = (True, s)"
    if "same_configuration (wasmSource s) newSource" "isInitialized s"
    using noop [OF that(1)] that(2) by (simp add: ensureInitialized_def)
  have reload: "fst (ensureInitialized h ?s) \<and>
      wasmModule (snd (ensureInitialized h ?s)) = Some m \<and>
      isInitialized (snd (ensureInitialized h ?s))"
    if "\<not> same_configuration (wasmSource s) newSource" "authHeaders newSource = Inr hs"
      "fetch h (url newSource) hs = Inr resp" "ok resp" "arrayBuffer resp = Inr bytes"
      "compile h bytes = Inr m"
    using reset [OF that(1)] that(2-6)
    by (simp add: ensureInitialized_def initialize_def Let_def)
  have fails: "\<not> fst (ensureInitialized h ?s)"
    if "\<not> same_configuration (wasmSource s) newSource"
      "authHeaders newSource = Inl e \<or>
       (authHeaders newSource = Inr hs \<and> fetch h (url newSource) hs = Inl e)"
    using reset [OF that(1)] that(2)
    by (auto simp: ensureInitialized_def initialize_def)
  have throws: "fst (runInference h request ?s) = Inl (Error (js ''WASM module not available''))"
    if "\<not> fst (ensureInitialized h ?s)"
    using that by (cases "ensureInitialized h ?s") (simp add: runInference_def)
  show ?thesis
    using noop reset ready reload fails throws by blast
qed

text \<open>
  An engine loaded with module 0, and a host that compiles to module 1: a descriptor
  that differs in name and time stamps only changes nothing, and after a change of
  the token the next call ends with module 1.
\<close>

theorem updateWasmSource_compares_configuration_witness:
  "updateWasmSource ((wasmSource loaded_engine)\<lparr>id_src := js ''42'', name := js ''Mirror'',
        createdAt := 5, lastUpdated := Some (js ''today'')\<rparr>) loaded_engine = loaded_engine \<and>
   wasmModule (updateWasmSource ((wasmSource loaded_engine)\<lparr>authToken := Some (js ''t'')\<rparr>)
        loaded_engine) = None \<and>
   wasmModule (snd (ensureInitialized
        ((example_host True [] None)\<lparr>compile := (\<lambda>bytes. Inr (Module 1))\<rparr>)
        (updateWasmSource ((wasmSource loaded_engine)\<lparr>authToken := Some (js ''t'')\<rparr>)
           loaded_engine))) = Some (Module 1)"
proof -
  let ?h = "(example_host True [] None)\<lparr>compile := (\<lambda>bytes. Inr (Module 1))\<rparr>"
  let ?same = "(wasmSource loaded_engine)\<lparr>id_src := js ''42'', name := js ''Mirror'',
        createdAt := 5, lastUpdated := Some (js ''today'')\<rparr>"
  let ?new = "(wasmSource loaded_engine)\<lparr>authToken := Some (js ''t'')\<rparr>"
  have same: "same_configuration (wasmSource loaded_engine) ?same"
    by (simp add: same_configuration_def)
  have changed: "\<not> same_configuration (wasmSource loaded_engine) ?new"
    by (simp add: same_configuration_def loaded_engine_def example_engine_def newEngine_def)
  have hs: "authHeaders ?new = Inr [js ''Accept'' \<mapsto> js ''application/wasm'']"
    by (simp add: authHeaders_def loaded_engine_def example_engine_def newEngine_def)
  have f: "fetch ?h (url ?new) [js ''Accept'' \<mapsto> js ''application/wasm''] =
      Inr \<lparr>ok = True, status = 200, statusText = js ''OK'', lastModified = None,
           arrayBuffer = Inr []\<rparr>"
    by (simp add: example_host_def)
  have c: "compile ?h [] = Inr (Module 1)"
    by simp
  show ?thesis
    using updateWasmSource_compares_configuration [of loaded_engine ?same] same
      updateWasmSource_compares_configuration
        [of loaded_engine ?new ?h "[js ''Accept'' \<mapsto> js ''application/wasm'']"
          "\<lparr>ok = True, status = 200, statusText = js ''OK'', lastModified = None,
            arrayBuffer = Inr []\<rparr>" "[]" "Module 1"]
      changed hs f c
    by simp
qed

subsection \<open>Failures of a request\<close>

text \<open>
  Claim C2, as amended. When the engine is initialized, or its lazy initialization
  succeeds, \<^verbatim>\<open>runInference\<close> and \<^verbatim>\<open>runSubtyping\<close> always return a response, and a failure
  inside the call (no module, a failed instantiation, a trap of the module) is the
  response with \<open>success = False\<close> and the message of what was thrown. When the lazy
  initialization fails, both methods throw the error \<open>WASM module not available\<close> to
  the caller.
\<close>

theorem run_methods_responses:
  assumes "ensureInitialized h s = (initialized, s0)"
  shows "(initialized \<longrightarrow>
            (\<exists>r. fst (runInference h request s) = Inr r) \<and>
            (\<exists>r. fst (runSubtyping h srequest s) = Inr r)) \<and>
         (initialized \<and> sandbox_failure h s0 (inferenceArgs request) = Some e \<longrightarrow>
            fst (runInference h request s) =
              Inr \<lparr>success = False, result = None, error = Some (messageOf e),
                   steps = None\<rparr>) \<and>
         (initialized \<and> sandbox_failure h s0 (subtypingArgs srequest) = Some e \<longrightarrow>
            fst (runSubtyping h srequest s) =
              Inr \<lparr>success = False, result = None, error = Some (messageOf e),
                   steps = None\<rparr>) \<and>
         (\<not> initialized \<longrightarrow>
            fst (runInference h request s) = Inl (Error (js ''WASM module not available'')) \<and>
            fst (runSubtyping h srequest s) = Inl (Error (js ''WASM module not available'')))"
proof -
  have inf: "fst (runInference h request s) = Inr (errorResponse e)"
    if "initialized" "sandbox_failure h s0 (inferenceArgs request) = Some e"
    using invoke_failure [OF that(2)] assms that(1)
    by (auto simp: runInference_def split: prod.splits sum.splits)
  have sub: "fst (runSubtyping h srequest s) = Inr (errorResponse e)"
    if "initialized" "sandbox_failure h s0 (subtypingArgs srequest) = Some e"
    using invoke_failure [OF that(2)] assms that(1)
    by (auto simp: runSubtyping_def split: prod.splits sum.splits)
  have ret: "(\<exists>r. fst (runInference h request s) = Inr r) \<and>
      (\<exists>r. fst (runSubtyping h srequest s) = Inr r)" if "initialized"
    using assms that
    by (auto simp: runInference_def runSubtyping_def split: prod.splits sum.splits)
  have thrown: "fst (runInference h request s) = Inl (Error (js ''WASM module not available'')) \<and>
      fst (runSubtyping h srequest s) = Inl (Error (js ''WASM module not available''))"
    if "\<not> initialized"
    using assms that by (simp add: runInference_def runSubtyping_def)
  show ?thesis
    using inf sub ret thrown by (simp add: errorResponse_def)
qed

text \<open>
  A module that traps: the response carries the message of the trap.
\<close>

theorem run_methods_responses_witness:
  "fst (runInference (example_host True [] (Some (Error (js ''unreachable''))))
          example_request example_engine) =
     Inr \<lparr>success = False, result = None, error = Some (js ''unreachable''),
          steps = None\<rparr>"
proof -
  have "sandbox_failure (example_host True [] (Some (Error (js ''unreachable''))))
      loaded_engine (inferenceArgs example_request) = Some (Error (js ''unreachable''))"
    by (simp add: sandbox_failure_def example_host_def loaded_engine_def)
  then show ?thesis
    using run_methods_responses [OF example_online,
        of "[]" "Some (Error (js ''unreachable''))" example_request example_srequest
        "Error (js ''unreachable'')"]
    by (simp add: messageOf_def)
qed

text \<open>
  The claim as it was stated fails when the module cannot be fetched: the call of
  \<^verbatim>\<open>runInference\<close> on a fresh engine does not return a response, it throws.
\<close>

theorem initialization_failure_counterexample:
  "fst (runInference (example_host False [] None) example_request example_engine) =
     Inl (Error (js ''WASM module not available''))"
  by (simp add: runInference_def example_offline)

subsection \<open>Release of the instance\<close>

text \<open>
  Claim C8. In every call of \<^verbatim>\<open>runInference\<close>, \<^verbatim>\<open>runSubtyping\<close> and \<^verbatim>\<open>getMetadata\<close> in
  which the instance \<open>i\<close> was created and added to the active set, \<open>i\<close> is not in the
  active set when the call returns, whatever \<^verbatim>\<open>wasi.start\<close> did (completed with output
  that parses, completed with output that does not, or threw); and the call made
  exactly two changes to the active set, the addition of \<open>i\<close> and one removal of \<open>i\<close>.
\<close>

theorem instance_released_on_every_path:
  assumes "ensureInitialized h s = (True, s0)" and "wasmModule s0 = Some m"
  shows "(instantiate h m (inferenceArgs request) = Inr i \<longrightarrow>
            i \<notin> activeInstances (snd (runInference h request s)) \<and>
            poolHistory (snd (runInference h request s)) =
              poolHistory s @ [Added i, Deleted i]) \<and>
         (instantiate h m (subtypingArgs srequest) = Inr i \<longrightarrow>
            i \<notin> activeInstances (snd (runSubtyping h srequest s)) \<and>
            poolHistory (snd (runSubtyping h srequest s)) =
              poolHistory s @ [Added i, Deleted i]) \<and>
         (instantiate h m metadataArgs = Inr i \<longrightarrow>
            i \<notin> activeInstances (snd (getMetadata h s)) \<and>
            poolHistory (snd (getMetadata h s)) = poolHistory s @ [Added i, Deleted i])"
proof -
  have pool: "poolHistory s0 = poolHistory s"
    using ensureInitialized_pool [OF assms(1)] by simp
  have run: "i \<notin> activeInstances (snd (invoke h args s0)) \<and>
      poolHistory (snd (invoke h args s0)) = poolHistory s @ [Added i, Deleted i]"
    if "instantiate h m args = Inr i" for args
  proof -
    obtain lines trap where st: "start h args i = (lines, trap)"
      by (cases "start h args i")
    show ?thesis
      using invoke_started [OF assms(2) that st] pool by simp
  qed
  have inf: "snd (runInference h request s) = snd (invoke h (inferenceArgs request) s0)"
    using assms(1) by (simp add: runInference_def split: prod.splits sum.splits)
  have sub: "snd (runSubtyping h srequest s) = snd (invoke h (subtypingArgs srequest) s0)"
    using assms(1) by (simp add: runSubtyping_def split: prod.splits sum.splits)
  have meta: "snd (getMetadata h s) = snd (invoke h metadataArgs s0)"
    using assms(1) by (simp add: getMetadata_def split: prod.splits sum.splits option.splits)
  show ?thesis
    using run [of "inferenceArgs request"] run [of "subtypingArgs srequest"]
      run [of metadataArgs] inf sub meta
    by simp
qed

theorem instance_released_on_every_path_witness:
  "Instance 0 \<notin> activeInstances (snd (runInference
       (example_host True [] (Some (Error (js ''unreachable'')))) example_request
       example_engine)) \<and>
   poolHistory (snd (runInference
       (example_host True [] (Some (Error (js ''unreachable'')))) example_request
       example_engine)) = [Added (Instance 0), Deleted (Instance 0)]"
proof -
  have m: "wasmModule loaded_engine = Some (Module 0)"
    by (simp add: loaded_engine_def)
  have i: "instantiate (example_host True [] (Some (Error (js ''unreachable''))))
      (Module 0) (inferenceArgs example_request) = Inr (Instance 0)"
    by (simp add: example_host_def)
  have p: "poolHistory example_engine = []"
    by (simp add: example_engine_def newEngine_def)
  show ?thesis
    using instance_released_on_every_path [OF example_online m,
        of "[]" "Some (Error (js ''unreachable''))" example_request "Instance 0"] i p
    by simp
qed

subsection \<open>Decoding\<close>

lemma read_steps_not_null:
  "parsed \<noteq> JNull \<Longrightarrow> read_steps parsed = Inr (steps_property parsed)"
  by (cases parsed) (simp_all add: read_steps_def)

lemma trim_type_Int:
  "trim (js ''{\"type\":\"Int\"}'' @ [0x0A]) = js ''{\"type\":\"Int\"}''"
  by code_simp

lemma parse_type_Int:
  "JSON_parse (js ''{\"type\":\"Int\"}'') =
     Some (JObject [(js ''type'', JString (js ''Int''))])"
  by code_simp

lemma trim_arrow_text:
  "trim (js ''Int -> Int'' @ [0x0A]) = js ''Int -> Int''"
  by code_simp

lemma parse_arrow_text:
  "JSON_parse (js ''Int -> Int'') = None"
  by code_simp

text \<open>
  Claim C5, as amended. The output buffer is trimmed at both ends and parsed. When
  the parse fails the result is the text result, with the trimmed text as \<open>type\<close>.
  When the parse gives a value other than \<^verbatim>\<open>null\<close>, the result is that value, and \<open>steps\<close>
  is its \<open>steps\<close> property when that property is truthy and the empty list otherwise
  (a missing, \<^verbatim>\<open>null\<close>, \<^verbatim>\<open>false\<close>, zero or empty-string property). The two examples of
  the claim hold: the object with \<open>type\<close> \<open>Int\<close> decodes to itself with no steps, and
  the text \<open>Int -> Int\<close> decodes to the text result.
\<close>

theorem decode_output_rules:
  "(JSON_parse (trim buffer) = None \<longrightarrow>
      decodeOutput (trim buffer) =
        \<lparr>success = True, result = Some (JObject [(js ''type'', JString (trim buffer))]),
         error = None, steps = Some (JArray [])\<rparr>) \<and>
   (JSON_parse (trim buffer) = Some parsed \<and> parsed \<noteq> JNull \<longrightarrow>
      decodeOutput (trim buffer) =
        \<lparr>success = True, result = Some parsed, error = None,
         steps = Some (if truthy (steps_property parsed) then the (steps_property parsed)
                       else JArray [])\<rparr>) \<and>
   decodeOutput (trim (js ''{\"type\":\"Int\"}'' @ [0x0A])) =
     \<lparr>success = True, result = Some (JObject [(js ''type'', JString (js ''Int''))]),
      error = None, steps = Some (JArray [])\<rparr> \<and>
   decodeOutput (trim (js ''Int -> Int'' @ [0x0A])) =
     \<lparr>success = True, result = Some (JObject [(js ''type'', JString (js ''Int -> Int''))]),
      error = None, steps = Some (JArray [])\<rparr>"
proof -
  have a: "decodeOutput out = textResult out" if "JSON_parse out = None" for out
    using that by (simp add: decodeOutput_def)
  have b: "decodeOutput out =
        \<lparr>success = True, result = Some v, error = None,
         steps = Some (if truthy (steps_property v) then the (steps_property v)
                       else JArray [])\<rparr>"
    if "JSON_parse out = Some v" and "v \<noteq> JNull" for out v
    using that read_steps_not_null [OF that(2)]
    by (simp add: decodeOutput_def)
  have c: "decodeOutput (js ''{\"type\":\"Int\"}'') =
     \<lparr>success = True, result = Some (JObject [(js ''type'', JString (js ''Int''))]),
      error = None, steps = Some (JArray [])\<rparr>"
    using b [OF parse_type_Int] by (simp add: steps_property_def)
  show ?thesis
    using a [of "trim buffer"] b [of "trim buffer" parsed] c a [OF parse_arrow_text]
    unfolding trim_type_Int trim_arrow_text textResult_def by simp
qed

theorem decode_output_rules_witness:
  "decodeOutput (trim (js ''[1]'' @ [0x0A])) =
     \<lparr>success = True, result = Some (JArray [JNumber 1 0]), error = None,
      steps = Some (JArray [])\<rparr>"
proof -
  have t: "trim (js ''[1]'' @ [0x0A]) = js ''[1]''" by code_simp
  have p: "JSON_parse (js ''[1]'') = Some (JArray [JNumber 1 0])" by code_simp
  show ?thesis
    using decode_output_rules [of "js ''[1]'' @ [0x0A]" "JArray [JNumber 1 0]"] p
    unfolding t by (simp add: steps_property_def)
qed

text \<open>
  The claim as it was stated fails on an output whose \<open>steps\<close> property is zero: the
  specification's \<open>??\<close> keeps the zero, the code's \<open>||\<close> replaces it by the empty list.
\<close>

lemma trim_steps_zero:
  "trim (js ''{\"steps\":0}'' @ [0x0A]) = js ''{\"steps\":0}''"
  by code_simp

lemma trim_end_steps_zero:
  "trim_end (js ''{\"steps\":0}'' @ [0x0A]) = js ''{\"steps\":0}''"
  by code_simp

lemma parse_steps_zero:
  "JSON_parse (js ''{\"steps\":0}'') = Some (JObject [(js ''steps'', JNumber 0 0)])"
  by code_simp

theorem decode_falsy_steps_counterexample:
  "steps (decodeOutput (trim (js ''{\"steps\":0}'' @ [0x0A]))) = Some (JArray []) \<and>
   steps (spec_decode (js ''{\"steps\":0}'' @ [0x0A])) = Some (JNumber 0 0)"
  unfolding trim_steps_zero trim_end_steps_zero spec_decode_def decodeOutput_def parse_steps_zero
  by (simp add: spec_steps_def number_is_zero_def read_steps_def steps_property_def)

text \<open>
  Claim C10. When the trimmed output of the module is the text \<open>null\<close>, the parse
  succeeds with the value \<^verbatim>\<open>null\<close>, the read of its \<open>steps\<close> property throws inside the
  inner \<^verbatim>\<open>try\<close>, and \<^verbatim>\<open>runInference\<close> and \<^verbatim>\<open>runSubtyping\<close> return the text result whose
  \<open>type\<close> is the text \<open>null\<close>, with no steps.
\<close>

theorem null_output_is_text_result:
  assumes "ensureInitialized h s = (True, s0)"
  shows "JSON_parse (js ''null'') = Some JNull \<and>
         read_steps JNull = Inl (Error (js ''Cannot read properties of null'')) \<and>
         (sandbox_output h s0 (inferenceArgs request) = Some (js ''null'') \<longrightarrow>
            fst (runInference h request s) =
              Inr \<lparr>success = True, result = Some (JObject [(js ''type'', JString (js ''null''))]),
                   error = None, steps = Some (JArray [])\<rparr>) \<and>
         (sandbox_output h s0 (subtypingArgs srequest) = Some (js ''null'') \<longrightarrow>
            fst (runSubtyping h srequest s) =
              Inr \<lparr>success = True, result = Some (JObject [(js ''type'', JString (js ''null''))]),
                   error = None, steps = Some (JArray [])\<rparr>)"
proof -
  have dec: "decodeOutput (js ''null'') = textResult (js ''null'')"
    using JSON_parse_null by (simp add: decodeOutput_def read_steps_def)
  have "fst (runInference h request s) = Inr (textResult (js ''null''))"
    if "sandbox_output h s0 (inferenceArgs request) = Some (js ''null'')"
    using runInference_decodes [OF assms that] dec by simp
  moreover have "fst (runSubtyping h srequest s) = Inr (textResult (js ''null''))"
    if "sandbox_output h s0 (subtypingArgs srequest) = Some (js ''null'')"
    using runSubtyping_decodes [OF assms that] dec by simp
  ultimately show ?thesis
    using JSON_parse_null by (simp add: textResult_def read_steps_def)
qed

theorem null_output_is_text_result_witness:
  "fst (runInference (example_host True [js ''null''] None) example_request example_engine) =
     Inr \<lparr>success = True, result = Some (JObject [(js ''type'', JString (js ''null''))]),
          error = None, steps = Some (JArray [])\<rparr>"
proof -
  have t: "trim (concat (map (\<lambda>msg. msg @ [0x0A]) [js ''null''])) = js ''null''"
    by code_simp
  have "sandbox_output (example_host True [js ''null''] None) loaded_engine
      (inferenceArgs example_request) = Some (js ''null'')"
    using t by (simp add: sandbox_output_def example_host_def loaded_engine_def)
  then show ?thesis
    using null_output_is_text_result [OF example_online,
        of "[js ''null'']" None example_request example_srequest]
    by simp
qed

text \<open>
  Claim C7. When the trimmed output of a metadata request does not parse,
  \<^verbatim>\<open>getMetadata\<close> throws the error \<open>Failed to parse metadata JSON from WASM\<close> to its
  caller; on the same output \<^verbatim>\<open>runInference\<close> and \<^verbatim>\<open>runSubtyping\<close> return the text
  result, so the metadata request is the only one whose parse failure is an error.
\<close>

theorem metadata_parse_failure_is_thrown:
  assumes "ensureInitialized h s = (True, s0)" and "JSON_parse out = None"
  shows "(sandbox_output h s0 metadataArgs = Some out \<longrightarrow>
            fst (getMetadata h s) =
              Inl (Error (js ''Failed to parse metadata JSON from WASM''))) \<and>
         (sandbox_output h s0 (inferenceArgs request) = Some out \<longrightarrow>
            fst (runInference h request s) =
              Inr \<lparr>success = True, result = Some (JObject [(js ''type'', JString out)]),
                   error = None, steps = Some (JArray [])\<rparr>) \<and>
         (sandbox_output h s0 (subtypingArgs srequest) = Some out \<longrightarrow>
            fst (runSubtyping h srequest s) =
              Inr \<lparr>success = True, result = Some (JObject [(js ''type'', JString out)]),
                   error = None, steps = Some (JArray [])\<rparr>)"
proof -
  have "fst (getMetadata h s) = Inl (Error (js ''Failed to parse metadata JSON from WASM''))"
    if "sandbox_output h s0 metadataArgs = Some out"
    using getMetadata_parses [OF assms(1) that] assms(2) by simp
  moreover have "fst (runInference h request s) = Inr (textResult out)"
    if "sandbox_output h s0 (inferenceArgs request) = Some out"
    using runInference_decodes [OF assms(1) that] assms(2) by (simp add: decodeOutput_def)
  moreover have "fst (runSubtyping h srequest s) = Inr (textResult out)"
    if "sandbox_output h s0 (subtypingArgs srequest) = Some out"
    using runSubtyping_decodes [OF assms(1) that] assms(2) by (simp add: decodeOutput_def)
  ultimately show ?thesis
    by (simp add: textResult_def)
qed

theorem metadata_parse_failure_is_thrown_witness:
  "fst (getMetadata (example_host True [js ''Int -> Int''] None) example_engine) =
     Inl (Error (js ''Failed to parse metadata JSON from WASM''))"
proof -
  have t: "trim (concat (map (\<lambda>msg. msg @ [0x0A]) [js ''Int -> Int''])) = js ''Int -> Int''"
    by code_simp
  have "sandbox_output (example_host True [js ''Int -> Int''] None) loaded_engine
      metadataArgs = Some (js ''Int -> Int'')"
    using t by (simp add: sandbox_output_def example_host_def loaded_engine_def)
  then show ?thesis
    using metadata_parse_failure_is_thrown [OF example_online parse_arrow_text,
        of "[js ''Int -> Int'']" None example_request example_srequest]
    by simp
qed

subsection \<open>The concurrency cap\<close>

text \<open>
  Claim C1. The claim is that the active set never holds more handles than the cap.
  The code does not keep that bound. Each call tests the size of the active set
  before its \<^verbatim>\<open>await\<close> and adds its instance after it, so calls made one after the other
  before any microtask has run all pass the test. With the default cap of 2 and a
  host whose instantiation is resolved at once, three run calls made in one go are
  all admitted, none of them is delayed, and once their three continuations have
  added their instances, and before the first run method has gone on to its
  \<^verbatim>\<open>finally\<close> block, the active set holds three instances.
\<close>

theorem run_calls_in_one_go_exceed_cap:
  "maxConcurrentInstances loaded_engine = 2 \<and>
   stage_of (pool_run True [Call 0, Call 1, Call 2] (idle_pool loaded_engine)) 0 =
     Instantiating \<and>
   stage_of (pool_run True [Call 0, Call 1, Call 2] (idle_pool loaded_engine)) 1 =
     Instantiating \<and>
   stage_of (pool_run True [Call 0, Call 1, Call 2] (idle_pool loaded_engine)) 2 =
     Instantiating \<and>
   card (activeInstances (pool_engine
     (pool_run True [Call 0, Call 1, Call 2, Microtask, Microtask, Microtask]
        (idle_pool loaded_engine)))) = 3 \<and>
   microtasks
     (pool_run True [Call 0, Call 1, Call 2, Microtask, Microtask, Microtask]
        (idle_pool loaded_engine)) = [ResumeRun 0, ResumeRun 1, ResumeRun 2]"
  by (simp add: idle_pool_def begin_instantiate_def loaded_engine_def example_engine_def
      newEngine_def)

subsection \<open>The grammar cache\<close>

lemma cache_run_append:
  "cache_run loader (xs @ ys) s = cache_run loader ys (cache_run loader xs s)"
  by (induction xs arbitrary: s) simp_all

lemma loads_join_pending:
  "data (grammarCache s) = None \<Longrightarrow> promise (grammarCache s) = Some p \<Longrightarrow>
   promises s ! p = Pending \<Longrightarrow>
   cache_run loader (map (\<lambda>c. Load c True) cs) s =
     s\<lparr>waiters := waiters s @ map (\<lambda>c. (c, p)) cs\<rparr>"
  by (induction cs arbitrary: s) (simp_all add: report_of_def)

lemma first_load:
  "cache_step promising (Load c True) empty_page =
     \<lparr>grammarCache = \<lparr>promise = Some 0, data = None\<rparr>, promises = [Pending], loads = 1,
      waiters = [(c, 0)], reports = []\<rparr>"
  by (simp add: empty_page_def promising_def)

lemma loads_while_loading:
  "cache_run promising (map (\<lambda>c. Load c True) (c # cs)) empty_page =
     \<lparr>grammarCache = \<lparr>promise = Some 0, data = None\<rparr>, promises = [Pending], loads = 1,
      waiters = map (\<lambda>c. (c, 0)) (c # cs), reports = []\<rparr>"
proof -
  have "cache_run promising (map (\<lambda>c. Load c True) (c # cs)) empty_page =
      cache_run promising (map (\<lambda>c. Load c True) cs)
        \<lparr>grammarCache = \<lparr>promise = Some 0, data = None\<rparr>, promises = [Pending], loads = 1,
         waiters = [(c, 0)], reports = []\<rparr>"
    by (simp only: list.map cache_run.simps first_load)
  also have "\<dots> = \<lparr>grammarCache = \<lparr>promise = Some 0, data = None\<rparr>, promises = [Pending],
      loads = 1, waiters = [(c, 0)] @ map (\<lambda>c. (c, 0)) cs, reports = []\<rparr>"
    by (subst loads_join_pending [where p = 0]) simp_all
  finally show ?thesis by simp
qed

lemma settle_fulfilled:
  "cache_step loader (Settle 0 (Inr d))
     \<lparr>grammarCache = \<lparr>promise = Some 0, data = None\<rparr>, promises = [Pending], loads = 1,
      waiters = map (\<lambda>c. (c, 0)) ws, reports = []\<rparr> =
   \<lparr>grammarCache = \<lparr>promise = Some 0, data = Some d\<rparr>, promises = [Fulfilled d], loads = 1,
    waiters = [], reports = map (\<lambda>c. (c, Highlighting d)) ws\<rparr>"
  by (simp add: filter_map comp_def)

lemma settle_rejected:
  "cache_step loader (Settle 0 (Inl e))
     \<lparr>grammarCache = \<lparr>promise = Some 0, data = None\<rparr>, promises = [Pending], loads = 1,
      waiters = map (\<lambda>c. (c, 0)) ws, reports = []\<rparr> =
   \<lparr>grammarCache = \<lparr>promise = None, data = None\<rparr>, promises = [Rejected e], loads = 1,
    waiters = [], reports = map (\<lambda>c. (c, Fallback e)) ws\<rparr>"
  by (simp add: filter_map comp_def)

text \<open>
  With a loader that hands back a promise, the calls made while the load is in
  flight wait for the one promise: the loader is invoked once, a success reaches
  every caller and fills the cache, and a rejection reaches every caller and empties
  the cache, so that the next call invokes the loader again.
\<close>

lemma promise_in_flight_is_shared:
  "loads (cache_run promising (map (\<lambda>c. Load c True) (c # cs)) empty_page) = 1 \<and>
   (let s = cache_run promising (map (\<lambda>c. Load c True) (c # cs) @ [Settle 0 (Inr d)])
              empty_page
    in loads s = 1 \<and> reports s = map (\<lambda>c. (c, Highlighting d)) (c # cs) \<and>
       data (grammarCache s) = Some d \<and> waiters s = []) \<and>
   (let s = cache_run promising (map (\<lambda>c. Load c True) (c # cs) @ [Settle 0 (Inl e)])
              empty_page
    in loads s = 1 \<and> reports s = map (\<lambda>c. (c, Fallback e)) (c # cs) \<and>
       grammarCache s = \<lparr>promise = None, data = None\<rparr> \<and> waiters s = [] \<and>
       loads (cache_step promising (Load c' True) s) = 2)"
proof -
  have fulfilled:
    "cache_run promising (map (\<lambda>c. Load c True) (c # cs) @ [Settle 0 (Inr d)]) empty_page =
       \<lparr>grammarCache = \<lparr>promise = Some 0, data = Some d\<rparr>, promises = [Fulfilled d],
        loads = 1, waiters = [], reports = map (\<lambda>c. (c, Highlighting d)) (c # cs)\<rparr>"
    by (simp only: cache_run_append loads_while_loading cache_run.simps settle_fulfilled)
  have rejected:
    "cache_run promising (map (\<lambda>c. Load c True) (c # cs) @ [Settle 0 (Inl e)]) empty_page =
       \<lparr>grammarCache = \<lparr>promise = None, data = None\<rparr>, promises = [Rejected e],
        loads = 1, waiters = [], reports = map (\<lambda>c. (c, Fallback e)) (c # cs)\<rparr>"
    by (simp only: cache_run_append loads_while_loading cache_run.simps settle_rejected)
  have retry:
    "loads (cache_step promising (Load c' True)
       \<lparr>grammarCache = \<lparr>promise = None, data = None\<rparr>, promises = [Rejected e],
        loads = 1, waiters = [], reports = map (\<lambda>c. (c, Fallback e)) (c # cs)\<rparr>) = 2"
    by (simp add: promising_def)
  show ?thesis
    unfolding Let_def fulfilled rejected loads_while_loading using retry by simp
qed

text \<open>
  Claim C3. The claim is that a failed load leaves the cache empty, so that a later
  call loads again. The code does not keep that when the call of the loader throws
  before its first \<^verbatim>\<open>await\<close>: the \<^verbatim>\<open>catch\<close> clears the promise first and the assignment
  stores the rejected promise afterwards. After the call of component \<open>c\<close> the cache
  holds a rejected promise and no data; the later call of component \<open>c'\<close> awaits that
  promise and reports the fallback, the loader has been invoked once and is not
  invoked again.
\<close>

theorem loader_throw_poisons_cache:
  "(let s = cache_run (throwing e) [Load c True, Load c' True] empty_page
    in grammarCache s = \<lparr>promise = Some 0, data = None\<rparr> \<and>
       promises s = [Rejected e] \<and> loads s = 1 \<and>
       reports s = [(c, Fallback e), (c', Fallback e)] \<and>
       loads (cache_step (throwing e) (Load c'' True) s) = 1)"
  by (simp add: empty_page_def throwing_def report_of_def Let_def)

subsection \<open>The credential headers\<close>

lemma split_no_separator:
  "sep \<noteq> [] \<Longrightarrow> \<not> occurs_in sep s \<Longrightarrow> split_from sep cur s = [cur @ s]"
  by (induction s arbitrary: cur) auto

lemma split_at_first_colon_space:
  "\<not> occurs_in [0x3A, 0x20] k \<Longrightarrow>
   split_from [0x3A, 0x20] cur (k @ 0x3A # 0x20 # v) = (cur @ k) # split_from [0x3A, 0x20] [] v"
proof (induction k arbitrary: cur)
  case Nil
  then show ?case by simp
next
  case (Cons c k)
  then show ?case by (cases k) auto
qed

lemma colon_space: "js '': '' = [0x3A, 0x20]"
  by simp

lemma split_key_value:
  "\<not> occurs_in (js '': '') k \<Longrightarrow> \<not> occurs_in (js '': '') v \<Longrightarrow>
   split_limit (js '': '') 2 (k @ js '': '' @ v) = [k, v]"
  unfolding colon_space split_limit_def
  by (simp add: split_at_first_colon_space split_no_separator del: split_from.simps)

lemma split_one_piece:
  "\<not> occurs_in (js '': '') stored \<Longrightarrow> split_limit (js '': '') 2 stored = [stored]"
  unfolding colon_space split_limit_def
  by (simp add: split_no_separator)

lemma btoa_latin1:
  "\<forall>c \<in> set s. c \<le> 0xFF \<Longrightarrow> btoa s = Inr (b64_encode (map unat s))"
  by (auto simp: btoa_def list_ex_iff not_less)

text \<open>
  Claim C9, as amended. The headers start as \<open>Accept: application/wasm\<close>, and at
  most one header is set on top of that. Nothing is set for \<open>none\<close>, \<open>presigned\<close> and a
  descriptor without scheme. For \<open>bearer\<close>, \<open>Authorization: Bearer token\<close> is added when
  the token is a non-empty string, and nothing otherwise. For \<open>basic\<close>,
  \<open>Authorization: Basic\<close> with the base64 of \<open>user:pass\<close> is added when the user name
  and the password are non-empty strings of code units up to 255, and nothing when
  one of them is missing or empty. For \<open>header\<close>, when the stored string is a
  non-empty key, the separator \<open>: \<close> and a non-empty value, with no separator inside
  the key or the value, the header with the trimmed key and the trimmed value is set, in place of the
  \<open>Accept\<close> header when the trimmed key is \<open>Accept\<close>; nothing is set when the trimmed
  key is \<open>__proto__\<close>, when the string is missing or when it holds no separator.
\<close>

theorem credential_headers_by_scheme:
  "((authType source = None \<or> authType source = Some AuthNone \<or>
     authType source = Some AuthPresigned) \<longrightarrow>
      authHeaders source = Inr [js ''Accept'' \<mapsto> js ''application/wasm'']) \<and>
   (authType source = Some AuthBearer \<and> authToken source = Some token \<and> token \<noteq> [] \<longrightarrow>
      authHeaders source =
        Inr [js ''Accept'' \<mapsto> js ''application/wasm'',
             js ''Authorization'' \<mapsto> js ''Bearer '' @ token]) \<and>
   (authType source = Some AuthBearer \<and>
    (authToken source = None \<or> authToken source = Some []) \<longrightarrow>
      authHeaders source = Inr [js ''Accept'' \<mapsto> js ''application/wasm'']) \<and>
   (authType source = Some AuthBasic \<and> authUsername source = Some user \<and>
    authPassword source = Some pass \<and> user \<noteq> [] \<and> pass \<noteq> [] \<and>
    (\<forall>c \<in> set (user @ pass). c \<le> 0xFF) \<longrightarrow>
      authHeaders source =
        Inr [js ''Accept'' \<mapsto> js ''application/wasm'',
             js ''Authorization'' \<mapsto>
               js ''Basic '' @ b64_encode (map unat (user @ js '':'' @ pass))]) \<and>
   (authType source = Some AuthBasic \<and>
    (authUsername source = None \<or> authUsername source = Some [] \<or>
     authPassword source = None \<or> authPassword source = Some []) \<longrightarrow>
      authHeaders source = Inr [js ''Accept'' \<mapsto> js ''application/wasm'']) \<and>
   (authType source = Some AuthHeader \<and> authHeader source = Some (key @ js '': '' @ val) \<and>
    key \<noteq> [] \<and> val \<noteq> [] \<and> \<not> occurs_in (js '': '') key \<and> \<not> occurs_in (js '': '') val \<and>
    trim key \<noteq> js ''__proto__'' \<longrightarrow>
      authHeaders source =
        Inr ([js ''Accept'' \<mapsto> js ''application/wasm''](trim key \<mapsto> trim val))) \<and>
   (authType source = Some AuthHeader \<and> authHeader source = Some (key @ js '': '' @ val) \<and>
    key \<noteq> [] \<and> val \<noteq> [] \<and> \<not> occurs_in (js '': '') key \<and> \<not> occurs_in (js '': '') val \<and>
    trim key = js ''Accept'' \<longrightarrow>
      authHeaders source = Inr [js ''Accept'' \<mapsto> trim val]) \<and>
   (authType source = Some AuthHeader \<and> authHeader source = Some (key @ js '': '' @ val) \<and>
    key \<noteq> [] \<and> val \<noteq> [] \<and> \<not> occurs_in (js '': '') key \<and> \<not> occurs_in (js '': '') val \<and>
    trim key = js ''__proto__'' \<longrightarrow>
      authHeaders source = Inr [js ''Accept'' \<mapsto> js ''application/wasm'']) \<and>
   (authType source = Some AuthHeader \<and>
    (authHeader source = None \<or>
     (authHeader source = Some stored \<and> \<not> occurs_in (js '': '') stored)) \<longrightarrow>
      authHeaders source = Inr [js ''Accept'' \<mapsto> js ''application/wasm''])"
proof -
  have stored: "authHeaders source =
        Inr (set_property (trim key) (trim val) [js ''Accept'' \<mapsto> js ''application/wasm''])"
    if "authType source = Some AuthHeader" "authHeader source = Some (key @ js '': '' @ val)"
       "key \<noteq> []" "val \<noteq> []" "\<not> occurs_in (js '': '') key" "\<not> occurs_in (js '': '') val"
    using that split_key_value [OF that(5) that(6)]
    by (simp add: authHeaders_def Let_def truthy_opt_def truthy_str_def)
  have latin1: "btoa (user @ js '':'' @ pass) =
      Inr (b64_encode (map unat (user @ js '':'' @ pass)))"
    if "\<forall>c \<in> set (user @ pass). c \<le> 0xFF"
  proof -
    have "\<forall>c \<in> set (user @ js '':'' @ pass). c \<le> 0xFF"
      using that by auto
    then show ?thesis
      by (rule btoa_latin1)
  qed
  have plain:
    "(authType source = None \<or> authType source = Some AuthNone \<or>
      authType source = Some AuthPresigned) \<longrightarrow>
       authHeaders source = Inr [js ''Accept'' \<mapsto> js ''application/wasm'']"
    by (auto simp: authHeaders_def)
  have bearer:
    "authType source = Some AuthBearer \<and> authToken source = Some token \<and> token \<noteq> [] \<longrightarrow>
       authHeaders source =
         Inr [js ''Accept'' \<mapsto> js ''application/wasm'',
              js ''Authorization'' \<mapsto> js ''Bearer '' @ token]"
    by (simp add: authHeaders_def truthy_opt_def truthy_str_def)
  have no_token:
    "authType source = Some AuthBearer \<and>
     (authToken source = None \<or> authToken source = Some []) \<longrightarrow>
       authHeaders source = Inr [js ''Accept'' \<mapsto> js ''application/wasm'']"
    by (auto simp: authHeaders_def truthy_opt_def truthy_str_def)
  have basic:
    "authType source = Some AuthBasic \<and> authUsername source = Some user \<and>
     authPassword source = Some pass \<and> user \<noteq> [] \<and> pass \<noteq> [] \<and>
     (\<forall>c \<in> set (user @ pass). c \<le> 0xFF) \<longrightarrow>
       authHeaders source =
         Inr [js ''Accept'' \<mapsto> js ''application/wasm'',
              js ''Authorization'' \<mapsto>
                js ''Basic '' @ b64_encode (map unat (user @ js '':'' @ pass))]"
    using latin1 by (simp add: authHeaders_def truthy_opt_def truthy_str_def)
  have no_basic:
    "authType source = Some AuthBasic \<and>
     (authUsername source = None \<or> authUsername source = Some [] \<or>
      authPassword source = None \<or> authPassword source = Some []) \<longrightarrow>
       authHeaders source = Inr [js ''Accept'' \<mapsto> js ''application/wasm'']"
    by (auto simp: authHeaders_def truthy_opt_def truthy_str_def)
  have header:
    "authType source = Some AuthHeader \<and> authHeader source = Some (key @ js '': '' @ val) \<and>
     key \<noteq> [] \<and> val \<noteq> [] \<and> \<not> occurs_in (js '': '') key \<and> \<not> occurs_in (js '': '') val \<and>
     trim key \<noteq> js ''__proto__'' \<longrightarrow>
       authHeaders source =
         Inr ([js ''Accept'' \<mapsto> js ''application/wasm''](trim key \<mapsto> trim val))"
    using stored by (simp add: set_property_def)
  have accept:
    "authType source = Some AuthHeader \<and> authHeader source = Some (key @ js '': '' @ val) \<and>
     key \<noteq> [] \<and> val \<noteq> [] \<and> \<not> occurs_in (js '': '') key \<and> \<not> occurs_in (js '': '') val \<and>
     trim key = js ''Accept'' \<longrightarrow>
       authHeaders source = Inr [js ''Accept'' \<mapsto> trim val]"
    using stored by (simp add: set_property_def)
  have proto:
    "authType source = Some AuthHeader \<and> authHeader source = Some (key @ js '': '' @ val) \<and>
     key \<noteq> [] \<and> val \<noteq> [] \<and> \<not> occurs_in (js '': '') key \<and> \<not> occurs_in (js '': '') val \<and>
     trim key = js ''__proto__'' \<longrightarrow>
       authHeaders source = Inr [js ''Accept'' \<mapsto> js ''application/wasm'']"
    using stored by (simp add: set_property_def)
  have no_header:
    "authType source = Some AuthHeader \<and>
     (authHeader source = None \<or>
      (authHeader source = Some stored \<and> \<not> occurs_in (js '': '') stored)) \<longrightarrow>
       authHeaders source = Inr [js ''Accept'' \<mapsto> js ''application/wasm'']"
    using split_one_piece [of stored]
    by (auto simp: authHeaders_def Let_def truthy_opt_def truthy_str_def)
  show ?thesis
    by (intro conjI plain bearer no_token basic no_basic header accept proto no_header)
qed

theorem credential_headers_by_scheme_witness:
  "authHeaders ((wasmSource example_engine)\<lparr>authType := Some AuthBasic,
       authUsername := Some (js ''alice''), authPassword := Some (js ''secret'')\<rparr>) =
     Inr [js ''Accept'' \<mapsto> js ''application/wasm'',
          js ''Authorization'' \<mapsto> js ''Basic YWxpY2U6c2VjcmV0'']"
proof -
  have b: "js ''Basic '' @ b64_encode (map unat (js ''alice'' @ js '':'' @ js ''secret'')) =
      js ''Basic YWxpY2U6c2VjcmV0''"
    by code_simp
  have l: "\<forall>c \<in> set (js ''alice'' @ js ''secret''). c \<le> (0xFF :: 16 word)"
    by simp
  show ?thesis
    using credential_headers_by_scheme
      [of "(wasmSource example_engine)\<lparr>authType := Some AuthBasic,
            authUsername := Some (js ''alice''), authPassword := Some (js ''secret'')\<rparr>"
          "[]" "js ''alice''" "js ''secret''" "[]" "[]" "[]"] l
    unfolding b by simp
qed

text \<open>
  The claim as it was stated fails for the \<open>basic\<close> scheme with an empty password:
  the code adds no \<open>Authorization\<close> header, where the claim has the base64 of
  \<open>alice:\<close>.
\<close>

theorem basic_empty_password_counterexample:
  "authHeaders ((wasmSource example_engine)\<lparr>authType := Some AuthBasic,
       authUsername := Some (js ''alice''), authPassword := Some []\<rparr>) =
     Inr [js ''Accept'' \<mapsto> js ''application/wasm''] \<and>
   spec_credential_headers ((wasmSource example_engine)\<lparr>authType := Some AuthBasic,
       authUsername := Some (js ''alice''), authPassword := Some []\<rparr>) =
     [js ''Authorization'' \<mapsto> js ''Basic YWxpY2U6'']"
proof -
  have b: "js ''Basic '' @ b64_encode (map unat (js ''alice'' @ js '':'' @ [])) =
      js ''Basic YWxpY2U6''"
    by code_simp
  show ?thesis
    using b
    by (simp add: authHeaders_def spec_credential_headers_def text_of_def truthy_opt_def
        truthy_str_def)
qed

end
